theory Spec2Isabelle
  imports Complex_Main
begin

section \<open>Python values and errors\<close>

text \<open>
  The exceptions that \<^verbatim>\<open>inference_runner.py\<close> raises itself or lets escape from the
  list operations it uses. A function that can raise returns \<open>py_error + 'a\<close>, with
  \<open>Inl\<close> for the exception.
\<close>

datatype py_error =
  AssertionError | ValueError | NotImplementedError | IndexError | KeyError

text \<open>
  \<^verbatim>\<open>xs.index(x)\<close>: the position of the first occurrence; Python raises
  \<^verbatim>\<open>ValueError\<close> when there is none. \<open>first_index\<close> is the position itself and is
  only meaningful under the membership test that guards it in the source.
\<close>

fun first_index :: "'a list \<Rightarrow> 'a \<Rightarrow> nat" where
  "first_index [] x = 0"
| "first_index (y # ys) x = (if y = x then 0 else Suc (first_index ys x))"

definition list_index :: "'a list \<Rightarrow> 'a \<Rightarrow> py_error + nat" where
  "list_index xs x = (if x \<in> set xs then Inr (first_index xs x) else Inl ValueError)"

text \<open>\<^verbatim>\<open>xs[k]\<close> for a non-negative index: \<^verbatim>\<open>IndexError\<close> out of range.\<close>

definition getitem :: "'a list \<Rightarrow> nat \<Rightarrow> py_error + 'a" where
  "getitem xs k = (if k < length xs then Inr (xs ! k) else Inl IndexError)"

text \<open>
  A list comprehension or an appending loop whose body can raise: the first exception
  ends it.
\<close>

fun traverse :: "('a \<Rightarrow> py_error + 'b) \<Rightarrow> 'a list \<Rightarrow> py_error + 'b list" where
  "traverse f [] = Inr []"
| "traverse f (x # xs) =
     (case f x of
        Inl e \<Rightarrow> Inl e
      | Inr y \<Rightarrow> (case traverse f xs of Inl e \<Rightarrow> Inl e | Inr ys \<Rightarrow> Inr (y # ys)))"

section \<open>Tensor names\<close>

text \<open>
  Modelled from the spec: \<^verbatim>\<open>get_op_tensor_name\<close> is imported from
  \<^verbatim>\<open>tfutils/common.py\<close>, which is not among the sources. The spec says that a name has
  an operation form and a tensor form and that the dispatcher normalises each name to its
  canonical tensor form; the source uses the result as a pair
  \<^verbatim>\<open>(opname, tensorname)\<close>. The model follows the naming convention of the graph
  library: a name that ends in a colon and one character is a tensor name and its
  operation name is the part before the colon; any other name is an operation name whose
  tensor is its output \<^verbatim>\<open>:0\<close>. The general theorems below never unfold this
  definition: they hold for whatever the normalisation is.
\<close>

definition get_op_tensor_name :: "string \<Rightarrow> string \<times> string" where
  "get_op_tensor_name name =
     (if 3 \<le> length name \<and> name ! (length name - 2) = CHR '':''
      then (take (length name - 2) name, name)
      else (name, name @ '':0''))"

section \<open>OutputTensorDispatcher\<close>

record dispatcher =
  names :: "string list"
  idxs :: "nat list list"

definition OutputTensorDispatcher :: dispatcher where
  "OutputTensorDispatcher = \<lparr>names = [], idxs = []\<rparr>"

text \<open>
  The loop of \<^verbatim>\<open>add_entry\<close> over the requested names, on the pair of
  \<^verbatim>\<open>self._names\<close> and the index list \<^verbatim>\<open>v\<close> under construction.
\<close>

fun add_names :: "string list \<Rightarrow> string list \<times> nat list \<Rightarrow> string list \<times> nat list" where
  "add_names [] (nms, v) = (nms, v)"
| "add_names (n # rest) (nms, v) =
     (let tensorname = snd (get_op_tensor_name n) in
      if tensorname \<in> set nms
      then add_names rest (nms, v @ [first_index nms tensorname])
      else add_names rest (nms @ [tensorname], v @ [length (nms @ [tensorname]) - 1]))"

definition add_entry :: "dispatcher \<Rightarrow> string list \<Rightarrow> dispatcher" where
  "add_entry d ns =
     (case add_names ns (names d, []) of
        (nms, v) \<Rightarrow> \<lparr>names = nms, idxs = idxs d @ [v]\<rparr>)"

definition get_all_names :: "dispatcher \<Rightarrow> string list" where
  "get_all_names d = names d"

definition get_idx_for_each_entry :: "dispatcher \<Rightarrow> nat list list" where
  "get_idx_for_each_entry d = idxs d"

definition get_names_for_each_entry :: "dispatcher \<Rightarrow> py_error + string list list" where
  "get_names_for_each_entry d = traverse (\<lambda>t. traverse (getitem (names d)) t) (idxs d)"

text \<open>A fresh dispatcher after one \<^verbatim>\<open>add_entry\<close> call per element, in order.\<close>

definition add_entries :: "string list list \<Rightarrow> dispatcher" where
  "add_entries es = foldl add_entry OutputTensorDispatcher es"

text \<open>
  The specification of first-seen order: the head of a sequence is kept and its later
  occurrences are dropped from what the rest keeps.
\<close>

fun first_seen :: "'a list \<Rightarrow> 'a list" where
  "first_seen [] = []"
| "first_seen (x # xs) = x # filter (\<lambda>y. y \<noteq> x) (first_seen xs)"

text \<open>The canonical tensor form of each requested name.\<close>

definition canonical :: "string list \<Rightarrow> string list" where
  "canonical ns = map (\<lambda>n. snd (get_op_tensor_name n)) ns"

section \<open>Tensor classification\<close>

text \<open>The named tuple \<^verbatim>\<open>IOTensor(index, isOutput)\<close>.\<close>

record IOTensor =
  index :: nat
  isOutput :: bool

text \<open>
  The inner function \<^verbatim>\<open>find_tensors\<close> of \<^verbatim>\<open>_find_output_tensors\<close>. The
  lookup in \<^verbatim>\<open>self.input_names\<close> is guarded by the membership test; the lookup in
  \<^verbatim>\<open>self.output_names\<close> is not and raises when the name is absent.
\<close>

definition find_tensors ::
  "string list \<Rightarrow> string list \<Rightarrow> string list \<Rightarrow> py_error + IOTensor list" where
  "find_tensors input_names output_names ns =
     traverse (\<lambda>name.
        if name \<in> set input_names
        then Inr \<lparr>index = first_index input_names name, isOutput = False\<rparr>
        else (case list_index output_names name of
                Inl e \<Rightarrow> Inl e
              | Inr k \<Rightarrow> Inr \<lparr>index = k, isOutput = True\<rparr>)) ns"

section \<open>The collaborators\<close>

text \<open>
  An inferencer is an object of a class outside this module: an opaque state and the hooks
  the runners call. \<open>class_name\<close> is \<^verbatim>\<open>type(inf).__name__\<close>; the mapping that
  \<^verbatim>\<open>after_inference\<close> returns is the list of its items in iteration order.
\<close>

record ('s, 'v, 'r) inferencer =
  class_name :: string
  inf_state :: 's
  get_output_tensors :: "string list"
  before_inference :: "'s \<Rightarrow> 's"
  datapoint :: "'s \<Rightarrow> 'v list \<Rightarrow> 's"
  after_inference :: "'s \<Rightarrow> (string \<times> 'r) list \<times> 's"

text \<open>
  A dataflow: \<^verbatim>\<open>reset_state()\<close>, \<^verbatim>\<open>size()\<close>, which a dataflow without a size
  answers with an exception, and \<^verbatim>\<open>get_data()\<close>, whose generator is taken to be
  finite: the datapoints it yields, each a list of components, and the state it leaves.
\<close>

record ('d, 'v) dataflow =
  ds_state :: 'd
  reset_state :: "'d \<Rightarrow> 'd"
  ds_size :: "'d \<Rightarrow> py_error + nat"
  get_data :: "'d \<Rightarrow> 'v list list \<times> 'd"

text \<open>
  A feedfree input: the result of \<^verbatim>\<open>size()\<close> and the tensors of
  \<^verbatim>\<open>get_input_tensors()\<close>.
\<close>

record 't tensor_input =
  input_size :: "py_error + nat"
  get_input_tensors :: "'t list"

text \<open>
  The placeholders of \<^verbatim>\<open>trainer.model.get_reused_placehdrs()\<close>: a dense tensor with
  its name, or a sparse tensor with the name of its operation.
\<close>

datatype placehdr = Tensor string | SparseTensor string

text \<open>
  What the runners use of the trainer and of the graph library: the placeholders of the
  model, the predictor factory, the name lookup of the default graph once the predict
  tower of a prefix has been built from the input tensors, the name of that tower, and
  one \<^verbatim>\<open>sess.run\<close> on the session state.
\<close>

record ('v, 't, 'g) trainer =
  get_reused_placehdrs :: "placehdr list"
  get_predictor :: "string list \<Rightarrow> string list \<Rightarrow> 'v list \<Rightarrow> py_error + 'v list"
  build_tower :: "'t list \<Rightarrow> string \<Rightarrow> string \<Rightarrow> 't option"
  get_predict_tower_name :: "nat \<Rightarrow> string \<Rightarrow> string"
  sess_run :: "'g \<Rightarrow> 't list \<Rightarrow> py_error + 'v list \<times> 'g"

text \<open>The values a caller can pass to the constructors.\<close>

datatype ('i, 'd, 't) pyobj =
    Inferencer 'i
  | DataFlow 'd
  | TensorInput 't
  | PyNone
  | PyStr string
  | PyList "('i, 'd, 't) pyobj list"
  | PyTuple "('i, 'd, 't) pyobj list"

text \<open>What the hooks and the sinks are seen to receive, in order.\<close>

datatype ('v, 'f) event =
    BeforeInference nat
  | ResetState
  | SessRun
  | Datapoint nat "'v list"
  | AfterInference nat
  | AddScalarSummary string 'f
  | Warn string

text \<open>The calls of the per-datapoint hook among the events.\<close>

fun is_Datapoint :: "('v, 'f) event \<Rightarrow> bool" where
  "is_Datapoint (Datapoint i inf_output) = True"
| "is_Datapoint ev = False"

section \<open>Summary emission\<close>

text \<open>
  The loop over the items of one returned mapping. \<open>float\<close> is the conversion
  \<^verbatim>\<open>float(v)\<close> of the language, whose exception, whatever it is, the bare
  \<^verbatim>\<open>except\<close> turns into a warning.
\<close>

fun emit_stats ::
  "('r \<Rightarrow> py_error + 'f) \<Rightarrow> string \<Rightarrow> (string \<times> 'r) list \<Rightarrow> ('v, 'f) event list" where
  "emit_stats float cname [] = []"
| "emit_stats float cname ((k, v) # rest) =
     (case float v of
        Inl e \<Rightarrow> Warn (cname @ '' returns a non-scalar statistics!'') # emit_stats float cname rest
      | Inr x \<Rightarrow> AddScalarSummary k x # emit_stats float cname rest)"

text \<open>
  \<^verbatim>\<open>summary_inferencer(trainer, infs)\<close>: the events, and the inferencers after their
  \<^verbatim>\<open>after_inference\<close> calls. The number is the position of the inferencer in
  \<^verbatim>\<open>infs\<close>, which names it in the events.
\<close>

fun summary_from ::
  "('r \<Rightarrow> py_error + 'f) \<Rightarrow> nat \<Rightarrow> ('s, 'v, 'r) inferencer list
   \<Rightarrow> ('v, 'f) event list \<times> ('s, 'v, 'r) inferencer list" where
  "summary_from float i [] = ([], [])"
| "summary_from float i (infr # rest) =
     (case after_inference infr (inf_state infr) of
        (ret, s') \<Rightarrow>
          (case summary_from float (Suc i) rest of
             (evs, rest') \<Rightarrow>
               (AfterInference i # emit_stats float (class_name infr) ret @ evs,
                infr\<lparr>inf_state := s'\<rparr> # rest')))"

definition summary_inferencer ::
  "('r \<Rightarrow> py_error + 'f) \<Rightarrow> ('s, 'v, 'r) inferencer list
   \<Rightarrow> ('v, 'f) event list \<times> ('s, 'v, 'r) inferencer list" where
  "summary_inferencer float infs = summary_from float 0 infs"

section \<open>What the two constructors share\<close>

text \<open>\<^verbatim>\<open>if not isinstance(infs, list): self.infs = [infs] else: self.infs = infs\<close>\<close>

fun as_list :: "('i, 'd, 't) pyobj \<Rightarrow> ('i, 'd, 't) pyobj list" where
  "as_list (PyList xs) = xs"
| "as_list x = [x]"

text \<open>\<^verbatim>\<open>assert isinstance(v, Inferencer), v\<close>\<close>

fun assert_Inferencer :: "('i, 'd, 't) pyobj \<Rightarrow> py_error + 'i" where
  "assert_Inferencer (Inferencer i) = Inr i"
| "assert_Inferencer x = Inl AssertionError"

text \<open>
  The loop \<^verbatim>\<open>for inf, m in zip(self.infs, maps)\<close> of both triggers: \<open>pick\<close> builds
  \<^verbatim>\<open>inf_output\<close> from the entry of the inferencer and can raise, and the inferencer
  receives it in \<^verbatim>\<open>datapoint\<close>. An inferencer beyond the shorter list is not
  called.
\<close>

fun feed_infs ::
  "('m \<Rightarrow> py_error + 'v list) \<Rightarrow> nat \<Rightarrow> ('s, 'v, 'r) inferencer list \<Rightarrow> 'm list
   \<Rightarrow> py_error + ('v, 'f) event list \<times> ('s, 'v, 'r) inferencer list" where
  "feed_infs pick i [] ms = Inr ([], [])"
| "feed_infs pick i (infr # rest) [] = Inr ([], infr # rest)"
| "feed_infs pick i (infr # rest) (m # ms) =
     (case pick m of
        Inl e \<Rightarrow> Inl e
      | Inr inf_output \<Rightarrow>
          (case feed_infs pick (Suc i) rest ms of
             Inl e \<Rightarrow> Inl e
           | Inr (evs, rest') \<Rightarrow>
               Inr (Datapoint i inf_output # evs,
                    infr\<lparr>inf_state := datapoint infr (inf_state infr) inf_output\<rparr> # rest')))"

text \<open>
  \<^verbatim>\<open>for inf in self.infs: inf.before_inference()\<close>: the inferencers afterwards, and
  the events of the calls.
\<close>

definition before_all :: "('s, 'v, 'r) inferencer list \<Rightarrow> ('s, 'v, 'r) inferencer list" where
  "before_all vs = map (\<lambda>infr. infr\<lparr>inf_state := before_inference infr (inf_state infr)\<rparr>) vs"

definition before_events :: "('s, 'v, 'r) inferencer list \<Rightarrow> ('v, 'f) event list" where
  "before_events vs = map BeforeInference [0..<length vs]"

section \<open>InferenceRunner\<close>

text \<open>
  The attributes that \<^verbatim>\<open>__init__\<close> sets, and those that \<^verbatim>\<open>_setup_graph\<close> adds.
\<close>

record ('s, 'v, 'r, 'd) InferenceRunner =
  ds :: "('d, 'v) dataflow"
  infs :: "('s, 'v, 'r) inferencer list"
  input_names :: "string list option"

record ('s, 'v, 'r, 'd) InferenceRunner_graph = "('s, 'v, 'r, 'd) InferenceRunner" +
  output_names :: "string list"
  inf_to_tensors :: "IOTensor list list"
  predictor :: "'v list \<Rightarrow> py_error + 'v list"

definition InferenceRunner_init ::
  "(('s, 'v, 'r) inferencer, ('d, 'v) dataflow, 't) pyobj
   \<Rightarrow> (('s, 'v, 'r) inferencer, ('d, 'v) dataflow, 't) pyobj
   \<Rightarrow> string list option \<Rightarrow> py_error + ('s, 'v, 'r, 'd) InferenceRunner" where
  "InferenceRunner_init ds_arg infs_arg input_tensor_names =
     (case ds_arg of
        DataFlow d \<Rightarrow>
          (case traverse assert_Inferencer (as_list infs_arg) of
             Inl e \<Rightarrow> Inl e
           | Inr vs \<Rightarrow> Inr \<lparr>ds = d, infs = vs, input_names = input_tensor_names\<rparr>)
      | _ \<Rightarrow> Inl AssertionError)"

fun get_name :: "placehdr \<Rightarrow> string" where
  "get_name (SparseTensor opname) = takeWhile (\<lambda>c. c \<noteq> CHR ''/'') opname"
| "get_name (Tensor name) = name"

text \<open>\<^verbatim>\<open>_find_input_tensors\<close>: the value of \<^verbatim>\<open>self.input_names\<close> afterwards.\<close>

definition InferenceRunner_find_input_tensors ::
  "('v, 't, 'g) trainer \<Rightarrow> string list option \<Rightarrow> string list" where
  "InferenceRunner_find_input_tensors tr inames =
     (case inames of
        None \<Rightarrow> map get_name (get_reused_placehdrs tr)
      | Some ns \<Rightarrow> ns)"

text \<open>
  \<^verbatim>\<open>_find_output_tensors\<close>: the values of \<^verbatim>\<open>self.output_names\<close> and
  \<^verbatim>\<open>self.inf_to_tensors\<close>.
\<close>

definition InferenceRunner_find_output_tensors ::
  "string list \<Rightarrow> string list list \<Rightarrow> py_error + string list \<times> IOTensor list list" where
  "InferenceRunner_find_output_tensors inames requests =
     (let dispatcher = add_entries requests;
          all_names = get_all_names dispatcher;
          onames = filter (\<lambda>x. x \<notin> set inames) all_names
      in case get_names_for_each_entry dispatcher of
           Inl e \<Rightarrow> Inl e
         | Inr entries \<Rightarrow>
             (case traverse (find_tensors inames onames) entries of
                Inl e \<Rightarrow> Inl e
              | Inr tensors \<Rightarrow> Inr (onames, tensors)))"

definition InferenceRunner_setup_graph ::
  "('v, 't, 'g) trainer \<Rightarrow> ('s, 'v, 'r, 'd) InferenceRunner
   \<Rightarrow> py_error + ('s, 'v, 'r, 'd) InferenceRunner_graph" where
  "InferenceRunner_setup_graph tr r =
     (let inames = InferenceRunner_find_input_tensors tr (input_names r)
      in case InferenceRunner_find_output_tensors inames (map get_output_tensors (infs r)) of
           Inl e \<Rightarrow> Inl e
         | Inr (onames, tensors) \<Rightarrow>
             Inr \<lparr>ds = ds r, infs = infs r, input_names = Some inames,
                  output_names = onames, inf_to_tensors = tensors,
                  predictor = get_predictor tr inames onames\<rparr>)"

text \<open>
  \<^verbatim>\<open>[(outputs if k.isOutput else dp)[k.index] for k in tensormap]\<close>
\<close>

definition inf_output_of :: "'v list \<Rightarrow> 'v list \<Rightarrow> IOTensor list \<Rightarrow> py_error + 'v list" where
  "inf_output_of outputs dp tensormap =
     traverse (\<lambda>k. getitem (if isOutput k then outputs else dp) (index k)) tensormap"

text \<open>The loop of \<^verbatim>\<open>_trigger\<close> over the datapoints.\<close>

fun run_datapoints ::
  "('v list \<Rightarrow> py_error + 'v list) \<Rightarrow> IOTensor list list \<Rightarrow> ('s, 'v, 'r) inferencer list
   \<Rightarrow> 'v list list \<Rightarrow> py_error + ('v, 'f) event list \<times> ('s, 'v, 'r) inferencer list" where
  "run_datapoints p tms vs [] = Inr ([], vs)"
| "run_datapoints p tms vs (dp # dps) =
     (case p dp of
        Inl e \<Rightarrow> Inl e
      | Inr outputs \<Rightarrow>
          (case feed_infs (inf_output_of outputs dp) 0 vs tms of
             Inl e \<Rightarrow> Inl e
           | Inr (ev1, vs1) \<Rightarrow>
               (case run_datapoints p tms vs1 dps of
                  Inl e \<Rightarrow> Inl e
                | Inr (ev2, vs2) \<Rightarrow> Inr (ev1 @ ev2, vs2))))"

text \<open>
  \<^verbatim>\<open>_trigger\<close>: the events of the pass and the runner afterwards, or the exception
  that ended it.
\<close>

definition InferenceRunner_trigger ::
  "('r \<Rightarrow> py_error + 'f) \<Rightarrow> ('s, 'v, 'r, 'd) InferenceRunner_graph
   \<Rightarrow> py_error + ('v, 'f) event list \<times> ('s, 'v, 'r, 'd) InferenceRunner_graph" where
  "InferenceRunner_trigger float r =
     (let ev0 = before_events (infs r);
          vs0 = before_all (infs r);
          s1 = reset_state (ds r) (ds_state (ds r))
      in case ds_size (ds r) s1 of
           Inl e \<Rightarrow> Inl e
         | Inr tqdm_total \<Rightarrow>
             (case get_data (ds r) s1 of
                (dps, s2) \<Rightarrow>
                  (case run_datapoints (predictor r) (inf_to_tensors r) vs0 dps of
                     Inl e \<Rightarrow> Inl e
                   | Inr (ev1, vs1) \<Rightarrow>
                       (case summary_inferencer float vs1 of
                          (ev2, vs2) \<Rightarrow>
                            Inr (ev0 @ [ResetState] @ ev1 @ ev2,
                                 r\<lparr>ds := (ds r)\<lparr>ds_state := s2\<rparr>, infs := vs2\<rparr>)))))"

section \<open>FeedfreeInferenceRunner\<close>

record ('s, 'v, 'r, 't) FeedfreeInferenceRunner =
  ff_input_data :: "'t tensor_input"
  ff_infs :: "('s, 'v, 'r) inferencer list"
  ff_input_names :: "string list option"
  ff_size :: nat
  ff_prefix :: string

record ('s, 'v, 'r, 't) FeedfreeInferenceRunner_graph =
    "('s, 'v, 'r, 't) FeedfreeInferenceRunner" +
  ff_input_tensors :: "'t list"
  ff_tower_prefix :: string
  ff_output_tensors :: "'t list"
  inf_to_idxs :: "nat list list"

text \<open>
  \<^verbatim>\<open>if input_names is not None: assert isinstance(input_names, list)\<close>. The elements
  of the list are not checked; the model keeps its strings. The runner only ever tests
  the attribute against \<^verbatim>\<open>None\<close>.
\<close>

fun assert_name_list :: "('i, 'd, 't) pyobj \<Rightarrow> py_error + string list option" where
  "assert_name_list PyNone = Inr None"
| "assert_name_list (PyList xs) =
     Inr (Some (concat (map (\<lambda>x. case x of PyStr s \<Rightarrow> [s] | _ \<Rightarrow> []) xs)))"
| "assert_name_list x = Inl AssertionError"

definition FeedfreeInferenceRunner_init ::
  "(('s, 'v, 'r) inferencer, 'd, 't tensor_input) pyobj
   \<Rightarrow> (('s, 'v, 'r) inferencer, 'd, 't tensor_input) pyobj
   \<Rightarrow> (('s, 'v, 'r) inferencer, 'd, 't tensor_input) pyobj
   \<Rightarrow> string \<Rightarrow> py_error + ('s, 'v, 'r, 't) FeedfreeInferenceRunner" where
  "FeedfreeInferenceRunner_init input_arg infs_arg input_names_arg prefix =
     (case input_arg of
        TensorInput inp \<Rightarrow>
          (case traverse assert_Inferencer (as_list infs_arg) of
             Inl e \<Rightarrow> Inl e
           | Inr vs \<Rightarrow>
               (case assert_name_list input_names_arg of
                  Inl e \<Rightarrow> Inl e
                | Inr inames \<Rightarrow>
                    (case input_size inp of
                       Inl e \<Rightarrow> Inl (if e = NotImplementedError then ValueError else e)
                     | Inr n \<Rightarrow>
                         Inr \<lparr>ff_input_data = inp, ff_infs = vs, ff_input_names = inames,
                              ff_size = n, ff_prefix = prefix\<rparr>)))
      | _ \<Rightarrow> Inl AssertionError)"

text \<open>
  \<^verbatim>\<open>_find_input_tensors\<close>: the value of \<^verbatim>\<open>self._input_tensors\<close>. With explicit
  input names the method raises before the code that would remap the placeholders.
\<close>

definition FeedfreeInferenceRunner_find_input_tensors ::
  "('v, 't, 'g) trainer \<Rightarrow> ('s, 'v, 'r, 't) FeedfreeInferenceRunner \<Rightarrow> py_error + 't list" where
  "FeedfreeInferenceRunner_find_input_tensors tr r =
     (let input_tensors = get_input_tensors (ff_input_data r);
          model_placehdrs = get_reused_placehdrs tr
      in if ff_input_names r \<noteq> None then Inl NotImplementedError
         else if length input_tensors = length model_placehdrs then Inr input_tensors
         else Inl AssertionError)"

text \<open>
  \<^verbatim>\<open>_find_output_tensors\<close>: the values of \<^verbatim>\<open>self._output_tensors\<close> and
  \<^verbatim>\<open>self.inf_to_idxs\<close>. \<open>G\<close> is \<^verbatim>\<open>get_tensor_by_name\<close> of the default graph,
  which raises \<^verbatim>\<open>KeyError\<close> for a name that the graph does not have.
\<close>

definition FeedfreeInferenceRunner_find_output_tensors ::
  "string \<Rightarrow> (string \<Rightarrow> 't option) \<Rightarrow> string list list \<Rightarrow> py_error + 't list \<times> nat list list" where
  "FeedfreeInferenceRunner_find_output_tensors tower_prefix G requests =
     (let dispatcher = add_entries requests;
          all_names = get_all_names dispatcher
      in case traverse (\<lambda>n. case G (tower_prefix @ ''/'' @ n) of
                               None \<Rightarrow> Inl KeyError
                             | Some t \<Rightarrow> Inr t) all_names of
           Inl e \<Rightarrow> Inl e
         | Inr tensors \<Rightarrow> Inr (tensors, get_idx_for_each_entry dispatcher))"

definition FeedfreeInferenceRunner_setup_graph ::
  "('v, 't, 'g) trainer \<Rightarrow> ('s, 'v, 'r, 't) FeedfreeInferenceRunner
   \<Rightarrow> py_error + ('s, 'v, 'r, 't) FeedfreeInferenceRunner_graph" where
  "FeedfreeInferenceRunner_setup_graph tr r =
     (case FeedfreeInferenceRunner_find_input_tensors tr r of
        Inl e \<Rightarrow> Inl e
      | Inr input_tensors \<Rightarrow>
          (let G = build_tower tr input_tensors (ff_prefix r);
               tower_prefix = get_predict_tower_name tr 0 (ff_prefix r)
           in case FeedfreeInferenceRunner_find_output_tensors tower_prefix G
                     (map get_output_tensors (ff_infs r)) of
                Inl e \<Rightarrow> Inl e
              | Inr (tensors, idlists) \<Rightarrow>
                  Inr \<lparr>ff_input_data = ff_input_data r, ff_infs = ff_infs r,
                       ff_input_names = ff_input_names r, ff_size = ff_size r,
                       ff_prefix = ff_prefix r, ff_input_tensors = input_tensors,
                       ff_tower_prefix = tower_prefix, ff_output_tensors = tensors,
                       inf_to_idxs = idlists\<rparr>))"

text \<open>The loop \<^verbatim>\<open>for _ in range(self._size)\<close> of \<^verbatim>\<open>_trigger\<close>.\<close>

fun run_steps ::
  "('g \<Rightarrow> 't list \<Rightarrow> py_error + 'v list \<times> 'g) \<Rightarrow> 't list \<Rightarrow> nat list list \<Rightarrow> nat
   \<Rightarrow> ('s, 'v, 'r) inferencer list \<Rightarrow> 'g
   \<Rightarrow> py_error + ('v, 'f) event list \<times> ('s, 'v, 'r) inferencer list \<times> 'g" where
  "run_steps run fetches idlists 0 vs g = Inr ([], vs, g)"
| "run_steps run fetches idlists (Suc n) vs g =
     (case run g fetches of
        Inl e \<Rightarrow> Inl e
      | Inr (outputs, g1) \<Rightarrow>
          (case feed_infs (traverse (getitem outputs)) 0 vs idlists of
             Inl e \<Rightarrow> Inl e
           | Inr (ev1, vs1) \<Rightarrow>
               (case run_steps run fetches idlists n vs1 g1 of
                  Inl e \<Rightarrow> Inl e
                | Inr (ev2, vs2, g2) \<Rightarrow> Inr (SessRun # ev1 @ ev2, vs2, g2))))"

definition FeedfreeInferenceRunner_trigger ::
  "('r \<Rightarrow> py_error + 'f) \<Rightarrow> ('v, 't, 'g) trainer \<Rightarrow> ('s, 'v, 'r, 't) FeedfreeInferenceRunner_graph
   \<Rightarrow> 'g \<Rightarrow> py_error + ('v, 'f) event list \<times> ('s, 'v, 'r, 't) FeedfreeInferenceRunner_graph \<times> 'g" where
  "FeedfreeInferenceRunner_trigger float tr r g =
     (let ev0 = before_events (ff_infs r);
          vs0 = before_all (ff_infs r)
      in case run_steps (sess_run tr) (ff_output_tensors r) (inf_to_idxs r) (ff_size r) vs0 g of
           Inl e \<Rightarrow> Inl e
         | Inr (ev1, vs1, g1) \<Rightarrow>
             (case summary_inferencer float vs1 of
                (ev2, vs2) \<Rightarrow> Inr (ev0 @ ev1 @ ev2, r\<lparr>ff_infs := vs2\<rparr>, g1)))"

text \<open>
  The specification of one evaluation step of the feedfree runner, given the values
  that \<^verbatim>\<open>sess.run\<close> has returned: the events, which are the run itself and one
  \<^verbatim>\<open>datapoint\<close> call per inferencer with the values at its indices, and the
  inferencers after a sequence of such steps.
\<close>

definition step_events :: "nat list list \<Rightarrow> 'v list \<Rightarrow> ('v, 'f) event list" where
  "step_events idlists outputs =
     SessRun # map (\<lambda>(i, idlist). Datapoint i (map (\<lambda>k. outputs ! k) idlist))
                 (enumerate 0 idlists)"

fun inferencers_after ::
  "nat list list \<Rightarrow> 'v list list \<Rightarrow> ('s, 'v, 'r) inferencer list
   \<Rightarrow> ('s, 'v, 'r) inferencer list" where
  "inferencers_after idlists [] vs = vs"
| "inferencers_after idlists (outputs # rest) vs =
     inferencers_after idlists rest
       (map (\<lambda>(infr, idlist).
               infr\<lparr>inf_state := datapoint infr (inf_state infr) (map (\<lambda>k. outputs ! k) idlist)\<rparr>)
          (zip vs idlists))"

section \<open>Properties of the list helpers\<close>

lemma first_index_less: "x \<in> set xs \<Longrightarrow> first_index xs x < length xs"
  by (induction xs) auto

lemma nth_first_index: "x \<in> set xs \<Longrightarrow> xs ! first_index xs x = x"
  by (induction xs) auto

lemma first_index_append: "x \<in> set xs \<Longrightarrow> first_index (xs @ ys) x = first_index xs x"
  by (induction xs) auto

lemma first_index_fresh: "x \<notin> set xs \<Longrightarrow> first_index (xs @ [x]) x = length xs"
  by (induction xs) auto

lemma first_index_nth: "distinct xs \<Longrightarrow> k < length xs \<Longrightarrow> first_index xs (xs ! k) = k"
proof (induction xs arbitrary: k)
  case Nil
  then show ?case by simp
next
  case (Cons y ys)
  show ?case
  proof (cases k)
    case 0
    then show ?thesis by simp
  next
    case (Suc j)
    with Cons.prems have "j < length ys" and "ys ! j \<in> set ys" and "y \<notin> set ys"
      by auto
    with Cons.IH Cons.prems Suc show ?thesis by auto
  qed
qed

lemma traverse_Inr:
  "(\<And>x. x \<in> set xs \<Longrightarrow> f x = Inr (g x)) \<Longrightarrow> traverse f xs = Inr (map g xs)"
  by (induction xs) auto

lemma traverse_length: "traverse f xs = Inr ys \<Longrightarrow> length ys = length xs"
  by (induction xs arbitrary: ys) (auto split: sum.splits)

lemma set_first_seen: "set (first_seen xs) = set xs"
  by (induction xs) auto

lemma distinct_first_seen: "distinct (first_seen xs)"
  by (induction xs) (auto simp: set_first_seen)

lemma filter_first_seen: "filter P (first_seen xs) = first_seen (filter P xs)"
proof (induction xs)
  case Nil
  then show ?case by simp
next
  case (Cons x xs)
  show ?case
  proof (cases "P x")
    case True
    have "filter P (filter (\<lambda>y. y \<noteq> x) (first_seen xs))
        = filter (\<lambda>y. y \<noteq> x) (filter P (first_seen xs))"
      by (simp add: conj_commute)
    with True Cons.IH show ?thesis by simp
  next
    case False
    have "x \<notin> set (first_seen (filter P xs))"
      using False by (simp add: set_first_seen)
    then have "filter (\<lambda>y. y \<noteq> x) (first_seen (filter P xs)) = first_seen (filter P xs)"
      by (auto simp: filter_id_conv)
    moreover have "filter P (filter (\<lambda>y. y \<noteq> x) (first_seen xs))
        = filter (\<lambda>y. y \<noteq> x) (filter P (first_seen xs))"
      by (simp add: conj_commute)
    ultimately show ?thesis using False Cons.IH by simp
  qed
qed

lemma first_seen_seen: "x \<in> set xs \<Longrightarrow> first_seen (xs @ x # ys) = first_seen (xs @ ys)"
proof (induction xs)
  case Nil
  then show ?case by simp
next
  case (Cons a xs)
  show ?case
  proof (cases "a = x")
    case True
    have "filter (\<lambda>y. y \<noteq> x) (first_seen (xs @ x # ys))
        = filter (\<lambda>y. y \<noteq> x) (first_seen (xs @ ys))"
      by (simp add: filter_first_seen)
    with True show ?thesis by simp
  next
    case False
    with Cons show ?thesis by simp
  qed
qed

lemma first_seen_fresh: "x \<notin> set xs \<Longrightarrow> first_seen (xs @ [x]) = first_seen xs @ [x]"
  by (induction xs) auto

section \<open>Properties of the dispatcher\<close>

lemma add_names_names:
  "fst (add_names ns (first_seen xs, v)) = first_seen (xs @ canonical ns)"
proof (induction ns arbitrary: xs v)
  case Nil
  then show ?case by (simp add: canonical_def)
next
  case (Cons n rest)
  let ?t = "snd (get_op_tensor_name n)"
  show ?case
  proof (cases "?t \<in> set xs")
    case True
    have "fst (add_names (n # rest) (first_seen xs, v)) = first_seen (xs @ canonical rest)"
      using True Cons.IH [of xs] by (simp add: Let_def set_first_seen)
    also have "\<dots> = first_seen (xs @ ?t # canonical rest)"
      using True by (simp add: first_seen_seen)
    finally show ?thesis by (simp add: canonical_def)
  next
    case False
    then have "first_seen xs @ [?t] = first_seen (xs @ [?t])"
      by (simp add: first_seen_fresh)
    with Cons.IH [of "xs @ [?t]"] False show ?thesis
      by (simp add: Let_def canonical_def set_first_seen)
  qed
qed

lemma add_names_extends: "\<exists>zs. fst (add_names ns (nms, v)) = nms @ zs"
proof (induction ns arbitrary: nms v)
  case Nil
  then show ?case by simp
next
  case (Cons n rest)
  let ?t = "snd (get_op_tensor_name n)"
  show ?case
  proof (cases "?t \<in> set nms")
    case True
    with Cons.IH [of nms] show ?thesis by (simp add: Let_def)
  next
    case False
    from Cons.IH [of "nms @ [?t]" "v @ [length nms]"]
    obtain zs where "fst (add_names rest (nms @ [?t], v @ [length nms])) = (nms @ [?t]) @ zs"
      by blast
    with False show ?thesis by (simp add: Let_def)
  qed
qed

lemma add_names_set:
  "set (fst (add_names ns (nms, v))) = set nms \<union> set (canonical ns)"
proof (induction ns arbitrary: nms v)
  case Nil
  then show ?case by (simp add: canonical_def)
next
  case (Cons n rest)
  then show ?case by (auto simp: Let_def canonical_def)
qed

lemma add_names_idxs:
  "snd (add_names ns (nms, v))
     = v @ map (first_index (fst (add_names ns (nms, v)))) (canonical ns)"
proof (induction ns arbitrary: nms v)
  case Nil
  then show ?case by (simp add: canonical_def)
next
  case (Cons n rest)
  let ?t = "snd (get_op_tensor_name n)"
  show ?case
  proof (cases "?t \<in> set nms")
    case True
    obtain zs where zs: "fst (add_names rest (nms, v @ [first_index nms ?t])) = nms @ zs"
      using add_names_extends by blast
    have "first_index (nms @ zs) ?t = first_index nms ?t"
      using True by (rule first_index_append)
    with True zs Cons.IH [of nms "v @ [first_index nms ?t]"] show ?thesis
      by (simp add: Let_def canonical_def)
  next
    case False
    obtain zs where zs: "fst (add_names rest (nms @ [?t], v @ [length nms])) = (nms @ [?t]) @ zs"
      using add_names_extends by blast
    have "first_index ((nms @ [?t]) @ zs) ?t = first_index (nms @ [?t]) ?t"
      by (rule first_index_append) simp
    also have "\<dots> = length nms"
      using False by (rule first_index_fresh)
    finally have "first_index ((nms @ [?t]) @ zs) ?t = length nms" .
    with False zs Cons.IH [of "nms @ [?t]" "v @ [length nms]"] show ?thesis
      by (simp add: Let_def canonical_def)
  qed
qed

lemma names_add_entry: "names (add_entry d ns) = fst (add_names ns (names d, []))"
  by (simp add: add_entry_def split: prod.splits)

lemma idxs_add_entry:
  "idxs (add_entry d ns) = idxs d @ [map (first_index (names (add_entry d ns))) (canonical ns)]"
  using add_names_idxs [of ns "names d" "[]"]
  by (cases "add_names ns (names d, [])") (simp add: add_entry_def)

lemma add_entries_snoc: "add_entries (es @ [e]) = add_entry (add_entries es) e"
  by (simp add: add_entries_def)

lemma names_add_entries: "names (add_entries es) = first_seen (canonical (concat es))"
proof (induction es rule: rev_induct)
  case Nil
  then show ?case by (simp add: add_entries_def OutputTensorDispatcher_def canonical_def)
next
  case (snoc e es)
  have "names (add_entries (es @ [e]))
      = fst (add_names e (first_seen (canonical (concat es)), []))"
    by (simp add: add_entries_snoc names_add_entry snoc.IH)
  also have "\<dots> = first_seen (canonical (concat es) @ canonical e)"
    by (rule add_names_names)
  finally show ?case by (simp add: canonical_def)
qed

lemma distinct_add_entries: "distinct (names (add_entries es))"
  by (simp add: names_add_entries distinct_first_seen)

lemma length_idxs_add_entries: "length (idxs (add_entries es)) = length es"
  by (induction es rule: rev_induct)
     (simp_all add: add_entries_snoc idxs_add_entry add_entries_def OutputTensorDispatcher_def)

lemma idxs_add_entries:
  "i < length es \<Longrightarrow>
   idxs (add_entries es) ! i = map (first_index (names (add_entries es))) (canonical (es ! i))
   \<and> set (canonical (es ! i)) \<subseteq> set (names (add_entries es))"
proof (induction es rule: rev_induct)
  case Nil
  then show ?case by simp
next
  case (snoc e es)
  let ?d = "add_entries es" and ?d' = "add_entries (es @ [e])"
  obtain zs where zs: "names ?d' = names ?d @ zs"
    using add_names_extends [of e "names ?d" "[]"]
    by (auto simp: add_entries_snoc names_add_entry)
  have set': "set (names ?d') = set (names ?d) \<union> set (canonical e)"
    by (simp add: add_entries_snoc names_add_entry add_names_set)
  show ?case
  proof (cases "i < length es")
    case True
    with snoc.IH have ih: "idxs ?d ! i = map (first_index (names ?d)) (canonical (es ! i))"
      and sub: "set (canonical (es ! i)) \<subseteq> set (names ?d)" by simp_all
    have "map (first_index (names ?d)) (canonical (es ! i))
        = map (first_index (names ?d')) (canonical (es ! i))"
      using sub by (auto simp: zs first_index_append)
    with True ih sub set' show ?thesis
      by (auto simp: add_entries_snoc idxs_add_entry nth_append length_idxs_add_entries)
  next
    case False
    with snoc.prems have "i = length es" by simp
    with set' show ?thesis
      by (simp add: add_entries_snoc idxs_add_entry nth_append length_idxs_add_entries)
  qed
qed

lemma first_index_filter:
  "P a \<Longrightarrow> P b \<Longrightarrow> a \<in> set ys \<Longrightarrow> b \<in> set ys \<Longrightarrow>
   (first_index (filter P ys) a < first_index (filter P ys) b)
     = (first_index ys a < first_index ys b)"
proof (induction ys)
  case Nil
  then show ?case by simp
next
  case (Cons y ys)
  show ?case
  proof (cases "y = a \<or> y = b")
    case True
    with Cons.prems show ?thesis by auto
  next
    case False
    with Cons.prems have "a \<in> set ys" "b \<in> set ys" by auto
    with Cons.IH Cons.prems False show ?thesis by simp
  qed
qed

lemma first_seen_order:
  "a \<in> set xs \<Longrightarrow> b \<in> set xs \<Longrightarrow>
   (first_index (first_seen xs) a < first_index (first_seen xs) b)
     = (first_index xs a < first_index xs b)"
proof (induction xs)
  case Nil
  then show ?case by simp
next
  case (Cons x xs)
  show ?case
  proof (cases "x = a \<or> x = b")
    case True
    then show ?thesis by auto
  next
    case False
    with Cons.prems have mem: "a \<in> set xs" "b \<in> set xs" by auto
    then have "a \<in> set (first_seen xs)" "b \<in> set (first_seen xs)"
      by (simp_all add: set_first_seen)
    with False
    have "(first_index (filter (\<lambda>y. y \<noteq> x) (first_seen xs)) a
            < first_index (filter (\<lambda>y. y \<noteq> x) (first_seen xs)) b)
        = (first_index (first_seen xs) a < first_index (first_seen xs) b)"
      by (intro first_index_filter) auto
    with False Cons.IH [OF mem] show ?thesis by simp
  qed
qed

lemma count_list_distinct:
  "distinct xs \<Longrightarrow> count_list xs x = (if x \<in> set xs then 1 else 0)"
  by (induction xs) auto

lemma get_names_add_entries:
  "get_names_for_each_entry (add_entries es) = Inr (map canonical es)"
proof -
  let ?d = "add_entries es"
  have "traverse (\<lambda>t. traverse (getitem (names ?d)) t) (idxs ?d)
      = Inr (map (\<lambda>t. map (\<lambda>k. names ?d ! k) t) (idxs ?d))"
  proof (rule traverse_Inr)
    fix t assume "t \<in> set (idxs ?d)"
    then obtain i where i: "i < length es" and t: "t = idxs ?d ! i"
      by (auto simp: in_set_conv_nth length_idxs_add_entries)
    from idxs_add_entries [OF i]
    have "\<forall>k\<in>set t. k < length (names ?d)"
      by (auto simp: t first_index_less)
    then show "traverse (getitem (names ?d)) t = Inr (map (\<lambda>k. names ?d ! k) t)"
      by (intro traverse_Inr) (simp add: getitem_def)
  qed
  moreover have "map (\<lambda>t. map (\<lambda>k. names ?d ! k) t) (idxs ?d) = map canonical es"
  proof (rule nth_equalityI)
    show "length (map (\<lambda>t. map (\<lambda>k. names ?d ! k) t) (idxs ?d)) = length (map canonical es)"
      by (simp add: length_idxs_add_entries)
  next
    fix i assume "i < length (map (\<lambda>t. map (\<lambda>k. names ?d ! k) t) (idxs ?d))"
    then have i: "i < length es" by (simp add: length_idxs_add_entries)
    from idxs_add_entries [OF i]
    have eq: "idxs ?d ! i = map (first_index (names ?d)) (canonical (es ! i))"
      and sub: "set (canonical (es ! i)) \<subseteq> set (names ?d)" by simp_all
    have "map (\<lambda>k. names ?d ! k) (idxs ?d ! i) = canonical (es ! i)"
      using sub by (simp add: eq map_idI nth_first_index subset_iff)
    with i show "map (\<lambda>t. map (\<lambda>k. names ?d ! k) t) (idxs ?d) ! i = map canonical es ! i"
      by (simp add: length_idxs_add_entries)
  qed
  ultimately show ?thesis by (simp add: get_names_for_each_entry_def)
qed

section \<open>The dispatcher's name list\<close>

text \<open>
  C2. After any sequence \<open>es\<close> of \<^verbatim>\<open>add_entry\<close> calls on a fresh dispatcher,
  \<^verbatim>\<open>get_all_names()\<close> is the sequence of the canonical forms of all requested names
  in first-seen order: every canonical name that was requested occurs in it exactly once
  and no other name occurs, and one name stands before another exactly when its first
  request comes before the first request of the other in the concatenation of the
  entries. The list is a function of the entries alone, so equal sequences of calls give
  equal lists.
\<close>

theorem all_names_first_seen:
  "get_all_names (add_entries es) = first_seen (canonical (concat es))
   \<and> count_list (get_all_names (add_entries es)) n
       = (if n \<in> set (canonical (concat es)) then 1 else 0)
   \<and> (a \<in> set (canonical (concat es)) \<and> b \<in> set (canonical (concat es)) \<longrightarrow>
        (first_index (get_all_names (add_entries es)) a
           < first_index (get_all_names (add_entries es)) b)
        = (first_index (canonical (concat es)) a < first_index (canonical (concat es)) b))
   \<and> (es' = es \<longrightarrow> get_all_names (add_entries es') = get_all_names (add_entries es))"
proof -
  have eq: "get_all_names (add_entries es) = first_seen (canonical (concat es))"
    by (simp add: get_all_names_def names_add_entries)
  have "count_list (first_seen (canonical (concat es))) n
      = (if n \<in> set (canonical (concat es)) then 1 else 0)"
    using count_list_distinct [OF distinct_first_seen, of "canonical (concat es)" n]
    by (simp add: set_first_seen)
  with eq first_seen_order [of a "canonical (concat es)" b] show ?thesis
    by simp
qed

theorem all_names_first_seen_witness:
  "get_all_names (add_entries [[''loss'', ''acc:0'', ''loss:0''], [''acc'', ''pred'']])
     = [''loss:0'', ''acc:0'', ''pred:0'']
   \<and> first_index (get_all_names (add_entries [[''loss'', ''acc:0'', ''loss:0''], [''acc'', ''pred'']])) ''acc:0''
       < first_index (get_all_names (add_entries [[''loss'', ''acc:0'', ''loss:0''], [''acc'', ''pred'']])) ''pred:0''"
  using all_names_first_seen
    [of "[[''loss'', ''acc:0'', ''loss:0''], [''acc'', ''pred'']]" "''acc:0''" "''acc:0''" "''pred:0''"
        "[[''loss'', ''acc:0'', ''loss:0''], [''acc'', ''pred'']]"]
  by (simp add: canonical_def get_op_tensor_name_def)

section \<open>The dispatcher's index lists\<close>

text \<open>
  C3, as the code has it. After any sequence \<open>es\<close> of \<^verbatim>\<open>add_entry\<close> calls there is
  one index list per call, and the index list of call \<open>i\<close> has the length of the
  argument of that call, holds only valid positions of \<^verbatim>\<open>get_all_names()\<close>, and
  resolves through \<^verbatim>\<open>get_all_names()\<close> to the argument with each name in its
  canonical tensor form, position by position and with its repeats;
  \<^verbatim>\<open>get_names_for_each_entry()\<close> returns exactly these resolved lists and does not
  raise.
\<close>

theorem idx_for_each_entry_resolves:
  assumes "i < length es"
  shows "length (get_idx_for_each_entry (add_entries es)) = length es
   \<and> length (get_idx_for_each_entry (add_entries es) ! i) = length (es ! i)
   \<and> (\<forall>k \<in> set (get_idx_for_each_entry (add_entries es) ! i).
         k < length (get_all_names (add_entries es)))
   \<and> map (\<lambda>k. get_all_names (add_entries es) ! k) (get_idx_for_each_entry (add_entries es) ! i)
       = canonical (es ! i)
   \<and> get_names_for_each_entry (add_entries es) = Inr (map canonical es)"
proof -
  let ?nms = "names (add_entries es)"
  from idxs_add_entries [OF assms]
  have eq: "idxs (add_entries es) ! i = map (first_index ?nms) (canonical (es ! i))"
    and sub: "set (canonical (es ! i)) \<subseteq> set ?nms" by simp_all
  have len: "length (idxs (add_entries es) ! i) = length (es ! i)"
    by (simp add: eq canonical_def)
  have valid: "\<forall>k \<in> set (idxs (add_entries es) ! i). k < length ?nms"
    using sub by (auto simp: eq first_index_less)
  have res: "map (\<lambda>k. ?nms ! k) (idxs (add_entries es) ! i) = canonical (es ! i)"
    using sub by (simp add: eq map_idI nth_first_index subset_iff)
  from len valid res show ?thesis
    by (simp add: get_idx_for_each_entry_def get_all_names_def length_idxs_add_entries
        get_names_add_entries)
qed

theorem idx_for_each_entry_resolves_witness:
  "get_idx_for_each_entry (add_entries [[''loss'', ''acc''], [''acc'', ''pred'', ''acc:0'']]) ! 1
     = [1, 2, 1]
   \<and> map (\<lambda>k. get_all_names (add_entries [[''loss'', ''acc''], [''acc'', ''pred'', ''acc:0'']]) ! k)
        (get_idx_for_each_entry (add_entries [[''loss'', ''acc''], [''acc'', ''pred'', ''acc:0'']]) ! 1)
     = [''acc:0'', ''pred:0'', ''acc:0'']"
  using idx_for_each_entry_resolves [of 1 "[[''loss'', ''acc''], [''acc'', ''pred'', ''acc:0'']]"]
  by (simp add: canonical_def get_op_tensor_name_def add_entries_def add_entry_def
      OutputTensorDispatcher_def get_idx_for_each_entry_def)

text \<open>
  C3, as the claim states it, fails for a name in operation form: the entry
  \<^verbatim>\<open>["loss"]\<close> is registered under the tensor name, and its index resolves to that
  name, which is not the requested one.
\<close>

theorem idx_for_each_entry_not_exact:
  "get_idx_for_each_entry (add_entries [[''loss'']]) = [[0]]
   \<and> get_all_names (add_entries [[''loss'']]) = [''loss:0'']
   \<and> get_all_names (add_entries [[''loss'']]) ! 0 \<noteq> ''loss''"
  by (simp add: add_entries_def add_entry_def OutputTensorDispatcher_def
      get_idx_for_each_entry_def get_all_names_def get_op_tensor_name_def)

section \<open>Properties of the classification\<close>

lemma first_index_image: "distinct xs \<Longrightarrow> first_index xs ` set xs = {0..<length xs}"
proof (intro equalityI subsetI)
  fix k assume "k \<in> first_index xs ` set xs"
  then show "k \<in> {0..<length xs}" by (auto simp: first_index_less)
next
  fix k assume d: "distinct xs" and "k \<in> {0..<length xs}"
  then have k: "k < length xs" by simp
  with d have "first_index xs (xs ! k) = k" by (rule first_index_nth)
  moreover from k have "xs ! k \<in> set xs" by simp
  ultimately show "k \<in> first_index xs ` set xs" by force
qed

lemma set_output_names:
  "set (filter (\<lambda>x. x \<notin> set inames) (names (add_entries es)))
     = set (canonical (concat es)) - set inames"
  by (auto simp: names_add_entries set_first_seen)

lemma find_tensors_Inr:
  assumes "set ns \<subseteq> set inames \<union> set onames"
  shows "find_tensors inames onames ns
     = Inr (map (\<lambda>name. if name \<in> set inames
                            then \<lparr>index = first_index inames name, isOutput = False\<rparr>
                            else \<lparr>index = first_index onames name, isOutput = True\<rparr>) ns)"
  unfolding find_tensors_def
  using assms by (intro traverse_Inr) (auto simp: list_index_def)

lemma find_output_tensors_eq:
  "InferenceRunner_find_output_tensors inames es
     = Inr (filter (\<lambda>x. x \<notin> set inames) (get_all_names (add_entries es)),
            map (\<lambda>e. map (\<lambda>name.
                   if name \<in> set inames
                   then \<lparr>index = first_index inames name, isOutput = False\<rparr>
                   else \<lparr>index = first_index
                          (filter (\<lambda>x. x \<notin> set inames) (get_all_names (add_entries es))) name,
                         isOutput = True\<rparr>) (canonical e)) es)"
proof -
  let ?on = "filter (\<lambda>x. x \<notin> set inames) (names (add_entries es))"
  let ?h = "\<lambda>name. if name \<in> set inames
                   then \<lparr>index = first_index inames name, isOutput = False\<rparr>
                   else \<lparr>index = first_index ?on name, isOutput = True\<rparr>"
  have "traverse (find_tensors inames ?on) (map canonical es)
      = Inr (map (map ?h) (map canonical es))"
  proof (rule traverse_Inr)
    fix ns assume "ns \<in> set (map canonical es)"
    then obtain e where "e \<in> set es" and "ns = canonical e" by auto
    then have "set ns \<subseteq> set (canonical (concat es))"
      unfolding canonical_def by (simp add: image_mono Union_upper)
    then have "set ns \<subseteq> set inames \<union> set ?on"
      unfolding set_output_names by blast
    then show "find_tensors inames ?on ns = Inr (map ?h ns)"
      by (rule find_tensors_Inr)
  qed
  then show ?thesis
    by (simp add: InferenceRunner_find_output_tensors_def get_names_add_entries
        get_all_names_def Let_def comp_def)
qed

section \<open>Tensor classification in the fed runner\<close>

text \<open>
  C1, as the code has it. For every list \<open>es\<close> of requested name lists and every
  input-name list, \<^verbatim>\<open>_find_output_tensors\<close> does not raise; \<^verbatim>\<open>output_names\<close>
  is \<^verbatim>\<open>all_names\<close> with the input names filtered out; and each requested name is
  classified by its canonical tensor form \<open>name\<close>, under which the dispatcher has
  registered it: its reference is \<^verbatim>\<open>IOTensor(input_names.index(name), False)\<close> when
  \<open>name\<close> is in the input-name list and
  \<^verbatim>\<open>IOTensor(output_names.index(name), True)\<close> otherwise. These positions are valid
  and hold the name. The output indices of the requested names are exactly
  \<open>0, \<dots>, k - 1\<close>, where \<open>k\<close> is the number of distinct canonical forms of requested
  names that are not input names, and two output names stand in \<^verbatim>\<open>output_names\<close> in
  the order in which they stand in \<^verbatim>\<open>all_names\<close>.
\<close>

theorem classification:
  assumes "all_names = get_all_names (add_entries es)"
      and "onames = filter (\<lambda>x. x \<notin> set inames) all_names"
  shows "InferenceRunner_find_output_tensors inames es
           = Inr (onames,
                  map (\<lambda>e. map (\<lambda>name.
                         if name \<in> set inames
                         then \<lparr>index = first_index inames name, isOutput = False\<rparr>
                         else \<lparr>index = first_index onames name, isOutput = True\<rparr>)
                       (canonical e)) es)
   \<and> (\<forall>name \<in> set (canonical (concat es)).
        (name \<in> set inames \<longrightarrow>
           first_index inames name < length inames \<and> inames ! first_index inames name = name)
      \<and> (name \<notin> set inames \<longrightarrow>
           first_index onames name < length onames \<and> onames ! first_index onames name = name))
   \<and> first_index onames ` (set (canonical (concat es)) - set inames) = {0..<length onames}
   \<and> length onames = card (set (canonical (concat es)) - set inames)
   \<and> (\<forall>a \<in> set onames. \<forall>b \<in> set onames.
        (first_index onames a < first_index onames b)
          = (first_index all_names a < first_index all_names b))"
proof -
  have on: "onames = filter (\<lambda>x. x \<notin> set inames) (names (add_entries es))"
    using assms by (simp add: get_all_names_def)
  have set_on: "set onames = set (canonical (concat es)) - set inames"
    unfolding on by (rule set_output_names)
  have dist: "distinct onames"
    unfolding on by (simp add: distinct_add_entries)
  have eq: "InferenceRunner_find_output_tensors inames es
           = Inr (onames,
                  map (\<lambda>e. map (\<lambda>name.
                         if name \<in> set inames
                         then \<lparr>index = first_index inames name, isOutput = False\<rparr>
                         else \<lparr>index = first_index onames name, isOutput = True\<rparr>)
                       (canonical e)) es)"
    using find_output_tensors_eq [of inames es] assms by simp
  have pos: "\<forall>name \<in> set (canonical (concat es)).
        (name \<in> set inames \<longrightarrow>
           first_index inames name < length inames \<and> inames ! first_index inames name = name)
      \<and> (name \<notin> set inames \<longrightarrow>
           first_index onames name < length onames \<and> onames ! first_index onames name = name)"
    using set_on by (auto simp: first_index_less nth_first_index)
  have dense: "first_index onames ` (set (canonical (concat es)) - set inames) = {0..<length onames}"
    using first_index_image [OF dist] by (simp add: set_on)
  have card: "length onames = card (set (canonical (concat es)) - set inames)"
    using distinct_card [OF dist] by (simp add: set_on)
  have ord: "\<forall>a \<in> set onames. \<forall>b \<in> set onames.
        (first_index onames a < first_index onames b)
          = (first_index all_names a < first_index all_names b)"
  proof (intro ballI)
    fix a b assume "a \<in> set onames" "b \<in> set onames"
    then have "a \<notin> set inames" "b \<notin> set inames" "a \<in> set all_names" "b \<in> set all_names"
      using assms(2) by auto
    then show "(first_index onames a < first_index onames b)
          = (first_index all_names a < first_index all_names b)"
      unfolding assms(2) by (intro first_index_filter)
  qed
  from eq pos dense card ord show ?thesis by blast
qed

theorem classification_witness:
  "InferenceRunner_find_output_tensors [''pred:0''] [[''pred'', ''loss''], [''loss'', ''acc'']]
     = Inr ([''loss:0'', ''acc:0''],
            [[\<lparr>index = 0, isOutput = False\<rparr>, \<lparr>index = 0, isOutput = True\<rparr>],
             [\<lparr>index = 0, isOutput = True\<rparr>, \<lparr>index = 1, isOutput = True\<rparr>]])
   \<and> first_index [''pred:0'', ''loss:0'', ''acc:0''] ''loss:0'' = 1"
  using classification [OF refl refl, of "[''pred:0'']" "[[''pred'', ''loss''], [''loss'', ''acc'']]"]
  by (simp add: canonical_def get_op_tensor_name_def get_all_names_def add_entries_def
      add_entry_def OutputTensorDispatcher_def)

text \<open>
  C1, as the claim states it, fails for a requested name in operation form: the name
  \<^verbatim>\<open>pred\<close> is requested and stands in the input-name list, but it is classified
  under the tensor name \<^verbatim>\<open>pred:0\<close>, which the input-name list does not hold, and its
  reference is an output reference.
\<close>

theorem classification_of_requested_name:
  "''pred'' \<in> set [''pred'']
   \<and> InferenceRunner_find_output_tensors [''pred''] [[''pred'']]
       = Inr ([''pred:0''], [[\<lparr>index = 0, isOutput = True\<rparr>]])"
  by (simp add: find_output_tensors_eq canonical_def get_op_tensor_name_def get_all_names_def
      add_entries_def add_entry_def OutputTensorDispatcher_def)

section \<open>Properties of the constructors\<close>

lemma traverse_assert_ok: "traverse assert_Inferencer (map Inferencer vs) = Inr vs"
  by (induction vs) auto

lemma traverse_assert_fail:
  "\<exists>v \<in> set xs. \<forall>i. v \<noteq> Inferencer i \<Longrightarrow> traverse assert_Inferencer xs = Inl AssertionError"
proof (induction xs)
  case Nil
  then show ?case by simp
next
  case (Cons x xs)
  show ?case
  proof (cases x)
    case (Inferencer i)
    with Cons show ?thesis by auto
  qed simp_all
qed

section \<open>Type checks of the fed runner's constructor\<close>

text \<open>
  C9. When the dataset argument is not a \<^verbatim>\<open>DataFlow\<close>, or when some element of the
  inferencer list (the argument itself when it is a list, the one-element list that holds
  it otherwise) is not an \<^verbatim>\<open>Inferencer\<close>, \<^verbatim>\<open>InferenceRunner.__init__\<close> raises
  the assertion error. The constructor takes no trainer, graph or predictor: the
  exception comes before any of them is touched.
\<close>

theorem init_rejects_wrong_types:
  assumes "(\<forall>d. ds_arg \<noteq> DataFlow d) \<or> (\<exists>v \<in> set (as_list infs_arg). \<forall>i. v \<noteq> Inferencer i)"
  shows "InferenceRunner_init ds_arg infs_arg input_tensor_names = Inl AssertionError"
proof (cases ds_arg)
  case (DataFlow d)
  with assms have "\<exists>v \<in> set (as_list infs_arg). \<forall>i. v \<noteq> Inferencer i" by simp
  then have "traverse assert_Inferencer (as_list infs_arg) = Inl AssertionError"
    by (rule traverse_assert_fail)
  with DataFlow show ?thesis by (simp add: InferenceRunner_init_def)
qed (simp_all add: InferenceRunner_init_def)

theorem init_rejects_wrong_types_witness:
  "InferenceRunner_init (PyStr ''data'' :: ((nat list list, nat, nat) inferencer, (nat, nat) dataflow, nat tensor_input) pyobj) (PyList []) None = Inl AssertionError
   \<and> InferenceRunner_init
       (DataFlow \<lparr>ds_state = 0, reset_state = (\<lambda>s. 0), ds_size = (\<lambda>s. Inr 3),
          get_data = (\<lambda>s. ([[1], [2], [3]], Suc s))\<rparr> :: ((nat list list, nat, nat) inferencer, (nat, nat) dataflow, nat tensor_input) pyobj)
       (PyList [Inferencer \<lparr>class_name = ''Count'', inf_state = [], get_output_tensors = [''out''],
          before_inference = (\<lambda>s. []), datapoint = (\<lambda>s a. s @ [a]),
          after_inference = (\<lambda>s. ([(''count'', length s)], s))\<rparr>, PyNone]) None = Inl AssertionError"
  using init_rejects_wrong_types [of "PyStr ''data'' :: ((nat list list, nat, nat) inferencer, (nat, nat) dataflow, nat tensor_input) pyobj" "PyList []" None]
    init_rejects_wrong_types
      [of "DataFlow \<lparr>ds_state = 0, reset_state = (\<lambda>s. 0), ds_size = (\<lambda>s. Inr 3),
          get_data = (\<lambda>s. ([[1], [2], [3]], Suc s))\<rparr> :: ((nat list list, nat, nat) inferencer, (nat, nat) dataflow, nat tensor_input) pyobj"
          "PyList [Inferencer \<lparr>class_name = ''Count'', inf_state = [], get_output_tensors = [''out''],
          before_inference = (\<lambda>s. []), datapoint = (\<lambda>s a. s @ [a]),
          after_inference = (\<lambda>s. ([(''count'', length s)], s))\<rparr>, PyNone]" None]
  by simp

section \<open>A bare inferencer\<close>

text \<open>
  C10. Both constructors treat a bare \<^verbatim>\<open>Inferencer\<close> exactly as the one-element list
  that holds it: the results are equal, and the runner that is built holds the
  one-element list. Only the elements of an actual list are checked one by one: a list
  of inferencers is accepted as it is, while a tuple, even of inferencers, is taken as a
  single element and fails the check.
\<close>

theorem bare_inferencer:
  "InferenceRunner_init ds_arg (Inferencer v) nms
     = InferenceRunner_init ds_arg (PyList [Inferencer v]) nms
   \<and> InferenceRunner_init (DataFlow df) (Inferencer v) nms
     = Inr \<lparr>ds = df, infs = [v], input_names = nms\<rparr>
   \<and> FeedfreeInferenceRunner_init input_arg (Inferencer v) names_arg prefix
     = FeedfreeInferenceRunner_init input_arg (PyList [Inferencer v]) names_arg prefix
   \<and> FeedfreeInferenceRunner_init (TensorInput \<lparr>input_size = Inr n, get_input_tensors = ts\<rparr>)
        (Inferencer v) PyNone prefix
     = Inr \<lparr>ff_input_data = \<lparr>input_size = Inr n, get_input_tensors = ts\<rparr>, ff_infs = [v],
            ff_input_names = None, ff_size = n, ff_prefix = prefix\<rparr>
   \<and> InferenceRunner_init (DataFlow df) (PyList (map Inferencer vs)) nms
     = Inr \<lparr>ds = df, infs = vs, input_names = nms\<rparr>
   \<and> InferenceRunner_init ds_arg (PyTuple xs) nms = Inl AssertionError
   \<and> FeedfreeInferenceRunner_init input_arg (PyTuple xs) names_arg prefix = Inl AssertionError"
proof -
  have 1: "InferenceRunner_init ds_arg (PyTuple xs) nms = Inl AssertionError"
    by (cases ds_arg) (simp_all add: InferenceRunner_init_def)
  have 2: "FeedfreeInferenceRunner_init input_arg (PyTuple xs) names_arg prefix = Inl AssertionError"
    by (cases input_arg) (simp_all add: FeedfreeInferenceRunner_init_def)
  have 3: "InferenceRunner_init a (Inferencer v) nms
     = InferenceRunner_init a (PyList [Inferencer v]) nms" for a
    by (cases a) (simp_all add: InferenceRunner_init_def)
  have 4: "FeedfreeInferenceRunner_init a (Inferencer v) b prefix
     = FeedfreeInferenceRunner_init a (PyList [Inferencer v]) b prefix" for a b
    by (cases a) (simp_all add: FeedfreeInferenceRunner_init_def)
  have 5: "InferenceRunner_init (DataFlow df) (PyList (map Inferencer vs)) nms
     = Inr \<lparr>ds = df, infs = vs, input_names = nms\<rparr>"
    by (simp add: InferenceRunner_init_def traverse_assert_ok)
  have 6: "InferenceRunner_init (DataFlow df) (PyList [Inferencer v]) nms
     = Inr \<lparr>ds = df, infs = [v], input_names = nms\<rparr>"
    by (simp add: InferenceRunner_init_def)
  have 7: "FeedfreeInferenceRunner_init (TensorInput \<lparr>input_size = Inr n, get_input_tensors = ts\<rparr>)
        (PyList [Inferencer v]) PyNone prefix
     = Inr \<lparr>ff_input_data = \<lparr>input_size = Inr n, get_input_tensors = ts\<rparr>, ff_infs = [v],
            ff_input_names = None, ff_size = n, ff_prefix = prefix\<rparr>"
    by (simp add: FeedfreeInferenceRunner_init_def)
  show ?thesis unfolding 3 4 using 1 2 5 6 7 by simp
qed

theorem bare_inferencer_witness:
  "InferenceRunner_init (DataFlow \<lparr>ds_state = 0, reset_state = (\<lambda>s. 0), ds_size = (\<lambda>s. Inr 3),
          get_data = (\<lambda>s. ([[1], [2], [3]], Suc s))\<rparr> :: ((nat list list, nat, nat) inferencer, (nat, nat) dataflow, nat tensor_input) pyobj)
     (Inferencer \<lparr>class_name = ''Count'', inf_state = [], get_output_tensors = [''out''],
          before_inference = (\<lambda>s. []), datapoint = (\<lambda>s a. s @ [a]),
          after_inference = (\<lambda>s. ([(''count'', length s)], s))\<rparr>) None
   = InferenceRunner_init (DataFlow \<lparr>ds_state = 0, reset_state = (\<lambda>s. 0), ds_size = (\<lambda>s. Inr 3),
          get_data = (\<lambda>s. ([[1], [2], [3]], Suc s))\<rparr> :: ((nat list list, nat, nat) inferencer, (nat, nat) dataflow, nat tensor_input) pyobj)
       (PyList [Inferencer \<lparr>class_name = ''Count'', inf_state = [], get_output_tensors = [''out''],
          before_inference = (\<lambda>s. []), datapoint = (\<lambda>s a. s @ [a]),
          after_inference = (\<lambda>s. ([(''count'', length s)], s))\<rparr>]) None
   \<and> InferenceRunner_init (DataFlow \<lparr>ds_state = 0, reset_state = (\<lambda>s. 0), ds_size = (\<lambda>s. Inr 3),
          get_data = (\<lambda>s. ([[1], [2], [3]], Suc s))\<rparr> :: ((nat list list, nat, nat) inferencer, (nat, nat) dataflow, nat tensor_input) pyobj)
       (Inferencer \<lparr>class_name = ''Count'', inf_state = [], get_output_tensors = [''out''],
          before_inference = (\<lambda>s. []), datapoint = (\<lambda>s a. s @ [a]),
          after_inference = (\<lambda>s. ([(''count'', length s)], s))\<rparr>) None
     = Inr \<lparr>ds = \<lparr>ds_state = 0, reset_state = (\<lambda>s. 0), ds_size = (\<lambda>s. Inr 3),
          get_data = (\<lambda>s. ([[1], [2], [3]], Suc s))\<rparr>, infs = [\<lparr>class_name = ''Count'', inf_state = [], get_output_tensors = [''out''],
          before_inference = (\<lambda>s. []), datapoint = (\<lambda>s a. s @ [a]),
          after_inference = (\<lambda>s. ([(''count'', length s)], s))\<rparr>], input_names = None\<rparr>
   \<and> InferenceRunner_init (DataFlow \<lparr>ds_state = 0, reset_state = (\<lambda>s. 0), ds_size = (\<lambda>s. Inr 3),
          get_data = (\<lambda>s. ([[1], [2], [3]], Suc s))\<rparr> :: ((nat list list, nat, nat) inferencer, (nat, nat) dataflow, nat tensor_input) pyobj)
       (PyTuple [Inferencer \<lparr>class_name = ''Count'', inf_state = [], get_output_tensors = [''out''],
          before_inference = (\<lambda>s. []), datapoint = (\<lambda>s a. s @ [a]),
          after_inference = (\<lambda>s. ([(''count'', length s)], s))\<rparr>]) None
     = Inl AssertionError"
  by (intro conjI)
    (rule bare_inferencer [THEN conjunct1],
     rule bare_inferencer [THEN conjunct2, THEN conjunct1],
     rule bare_inferencer [THEN conjunct2, THEN conjunct2, THEN conjunct2, THEN conjunct2,
       THEN conjunct2, THEN conjunct1])

section \<open>Properties of the summary emission\<close>

lemma summary_from_append:
  "summary_from float i (xs @ ys)
     = (fst (summary_from float i xs) @ fst (summary_from float (i + length xs) ys),
        snd (summary_from float i xs) @ snd (summary_from float (i + length xs) ys))"
  by (induction xs arbitrary: i) (auto split: prod.splits)

section \<open>Best-effort summaries\<close>

text \<open>
  C7. Let the \<^verbatim>\<open>after_inference\<close> hook of an inferencer return the mapping with the
  two items \<^verbatim>\<open>m1\<close>, whose value \<^verbatim>\<open>float\<close> converts to \<open>x\<close>, and \<^verbatim>\<open>m2\<close>,
  whose value \<^verbatim>\<open>float\<close> refuses, in either iteration order. Then, wherever the
  inferencer stands in the list, \<^verbatim>\<open>summary_inferencer\<close> returns without an exception,
  and between the events of the inferencers before it and those of the inferencers after
  it, which are all emitted, it forwards exactly one scalar, \<^verbatim>\<open>m1\<close> with the value
  \<open>x\<close>, and logs exactly one warning.
\<close>

theorem summary_best_effort:
  fixes infr :: "('s, 'v, 'r) inferencer" and float :: "'r \<Rightarrow> py_error + 'f"
  assumes "fst (after_inference infr (inf_state infr)) = [(''m1'', v1), (''m2'', v2)]
           \<or> fst (after_inference infr (inf_state infr)) = [(''m2'', v2), (''m1'', v1)]"
      and "float v1 = Inr x"
      and "float v2 = Inl e"
  shows "\<exists>mid. fst (summary_inferencer float (before @ infr # after))
           = fst (summary_inferencer float before)
             @ AfterInference (length before) # mid
             @ fst (summary_from float (Suc (length before)) after)
         \<and> (mid = [AddScalarSummary ''m1'' x,
                    Warn (class_name infr @ '' returns a non-scalar statistics!'')]
            \<or> mid = [Warn (class_name infr @ '' returns a non-scalar statistics!''),
                      AddScalarSummary ''m1'' x])
         \<and> count_list mid (AddScalarSummary ''m1'' x) = 1
         \<and> length (filter (\<lambda>ev. \<exists>k y. ev = AddScalarSummary k y) mid) = 1
         \<and> length (filter (\<lambda>ev. \<exists>msg. ev = Warn msg) mid) = 1"
proof -
  let ?ret = "fst (after_inference infr (inf_state infr))"
  let ?mid = "emit_stats float (class_name infr) ?ret :: ('v, 'f) event list"
  have "fst (summary_from float (length before) (infr # after))
      = AfterInference (length before) # ?mid
        @ fst (summary_from float (Suc (length before)) after)"
    by (simp split: prod.splits)
  then have eq: "fst (summary_inferencer float (before @ infr # after))
           = fst (summary_inferencer float before)
             @ AfterInference (length before) # ?mid
             @ fst (summary_from float (Suc (length before)) after)"
    by (simp add: summary_inferencer_def summary_from_append)
  from assms have mid: "?mid = [AddScalarSummary ''m1'' x,
                    Warn (class_name infr @ '' returns a non-scalar statistics!'')]
            \<or> ?mid = [Warn (class_name infr @ '' returns a non-scalar statistics!''),
                      AddScalarSummary ''m1'' x]"
    by auto
  then have "count_list ?mid (AddScalarSummary ''m1'' x) = 1
         \<and> length (filter (\<lambda>ev. \<exists>k y. ev = AddScalarSummary k y) ?mid) = 1
         \<and> length (filter (\<lambda>ev. \<exists>msg. ev = Warn msg) ?mid) = 1"
    by auto
  with eq mid show ?thesis by blast
qed

theorem summary_best_effort_witness:
  "fst (summary_inferencer (case_sum Inr (\<lambda>s. Inl ValueError))
     [\<lparr>class_name = ''ScalarStats'', inf_state = (), get_output_tensors = [],
        before_inference = (\<lambda>s. s), datapoint = (\<lambda>s a. s),
        after_inference = (\<lambda>s. ([(''m1'', Inl (1 / 2)), (''m2'', Inr ''not-a-number'')], s))\<rparr>,
      \<lparr>class_name = ''Other'', inf_state = (), get_output_tensors = [],
        before_inference = (\<lambda>s. s), datapoint = (\<lambda>s a. s),
        after_inference = (\<lambda>s. ([(''acc'', Inl 1)], s))\<rparr>])
   = [AfterInference 0, AddScalarSummary ''m1'' (1 / 2 :: real),
      Warn ''ScalarStats returns a non-scalar statistics!'',
      AfterInference 1, AddScalarSummary ''acc'' 1 :: (nat, real) event]"
  using summary_best_effort
    [of "\<lparr>class_name = ''ScalarStats'', inf_state = (), get_output_tensors = [],
        before_inference = (\<lambda>s. s), datapoint = (\<lambda>s a. s),
        after_inference = (\<lambda>s. ([(''m1'', Inl (1 / 2)), (''m2'', Inr ''not-a-number'')], s))\<rparr>"
      "Inl (1 / 2)" "Inr ''not-a-number''" "case_sum Inr (\<lambda>s. Inl ValueError)" "1 / 2" ValueError
      "[]"
      "[\<lparr>class_name = ''Other'', inf_state = (), get_output_tensors = [],
        before_inference = (\<lambda>s. s), datapoint = (\<lambda>s a. s),
        after_inference = (\<lambda>s. ([(''acc'', Inl 1)], s))\<rparr>]"]
  by (simp add: summary_inferencer_def)

section \<open>Properties of the fed trigger\<close>

lemma no_Datapoint_emit_stats: "filter is_Datapoint (emit_stats float cname items) = []"
  by (induction items) (auto split: sum.splits)

lemma no_Datapoint_summary_from: "filter is_Datapoint (fst (summary_from float i vs)) = []"
proof (induction vs arbitrary: i)
  case Nil
  then show ?case by simp
next
  case (Cons v vs)
  obtain ret s' where a: "after_inference v (inf_state v) = (ret, s')"
    by (cases "after_inference v (inf_state v)")
  obtain evs rest' where b: "summary_from float (Suc i) vs = (evs, rest')"
    by (cases "summary_from float (Suc i) vs")
  from Cons.IH [of "Suc i"] b have "filter is_Datapoint evs = []" by simp
  with a b show ?case by (simp add: no_Datapoint_emit_stats)
qed

lemma length_summary_from: "length (snd (summary_from float i vs)) = length vs"
proof (induction vs arbitrary: i)
  case Nil
  then show ?case by simp
next
  case (Cons v vs)
  obtain ret s' where a: "after_inference v (inf_state v) = (ret, s')"
    by (cases "after_inference v (inf_state v)")
  obtain evs rest' where b: "summary_from float (Suc i) vs = (evs, rest')"
    by (cases "summary_from float (Suc i) vs")
  from Cons.IH [of "Suc i"] b have "length rest' = length vs" by simp
  with a b show ?case by simp
qed

lemma no_Datapoint_before: "filter is_Datapoint (map BeforeInference ns) = []"
  by (induction ns) auto

lemma feed_infs_length_only:
  fixes vs ws :: "('s, 'v, 'r) inferencer list"
  assumes "length vs = length ws"
  shows "case (feed_infs pick i vs ms :: py_error + ('v, 'f) event list \<times> ('s, 'v, 'r) inferencer list) of
      Inl e \<Rightarrow> (feed_infs pick i ws ms :: py_error + ('v, 'f) event list \<times> ('s, 'v, 'r) inferencer list) = Inl e
    | Inr (ev, vs') \<Rightarrow>
        length vs' = length vs \<and> (\<exists>ws'. feed_infs pick i ws ms = Inr (ev, ws'))"
  using assms
proof (induction pick i vs ms arbitrary: ws rule: feed_infs.induct)
  case (1 pick i ms)
  then show ?case by simp
next
  case (2 pick i infr rest)
  then show ?case by (cases ws) simp_all
next
  case (3 pick i infr rest m ms)
  from "3.prems" obtain w ws1 where ws: "ws = w # ws1" and len: "length rest = length ws1"
    by (cases ws) auto
  show ?case
  proof (cases "pick m")
    case (Inl e)
    then show ?thesis by (simp add: ws)
  next
    case (Inr out)
    from "3.IH" [OF Inr len] Inr show ?thesis
      by (auto simp: ws split: sum.splits prod.splits)
  qed
qed

lemma run_datapoints_length_only:
  fixes vs ws :: "('s, 'v, 'r) inferencer list"
  assumes "length vs = length ws"
  shows "case (run_datapoints p tms vs dps :: py_error + ('v, 'f) event list \<times> ('s, 'v, 'r) inferencer list) of
      Inl e \<Rightarrow> (run_datapoints p tms ws dps :: py_error + ('v, 'f) event list \<times> ('s, 'v, 'r) inferencer list) = Inl e
    | Inr (ev, vs') \<Rightarrow>
        length vs' = length vs \<and> (\<exists>ws'. run_datapoints p tms ws dps = Inr (ev, ws'))"
  using assms
proof (induction dps arbitrary: vs ws)
  case Nil
  then show ?case by simp
next
  case (Cons dp dps)
  show ?case
  proof (cases "p dp")
    case (Inl e)
    then show ?thesis by simp
  next
    case (Inr outputs)
    let ?fv = "feed_infs (inf_output_of outputs dp) 0 vs tms
                 :: py_error + ('v, 'f) event list \<times> ('s, 'v, 'r) inferencer list"
    let ?fw = "feed_infs (inf_output_of outputs dp) 0 ws tms
                 :: py_error + ('v, 'f) event list \<times> ('s, 'v, 'r) inferencer list"
    have f: "case ?fv of Inl e \<Rightarrow> ?fw = Inl e
             | Inr (ev, vs') \<Rightarrow> length vs' = length vs \<and> (\<exists>ws'. ?fw = Inr (ev, ws'))"
      using Cons.prems by (rule feed_infs_length_only)
    have g: "case ?fw of Inl e \<Rightarrow> ?fv = Inl e
             | Inr (ev, ws') \<Rightarrow> length ws' = length ws \<and> (\<exists>vs'. ?fv = Inr (ev, vs'))"
      using Cons.prems [symmetric] by (rule feed_infs_length_only)
    show ?thesis
    proof (cases ?fv)
      case (Inl e)
      with f Inr show ?thesis by simp
    next
      case fr: (Inr a)
      obtain ev1 vs1 where a: "a = (ev1, vs1)" by (cases a)
      from f fr a obtain ws1 where w: "?fw = Inr (ev1, ws1)"
        and l: "length vs1 = length vs" by auto
      from g w have "length ws1 = length ws" by simp
      with l Cons.prems have "length vs1 = length ws1" by simp
      from Cons.IH [OF this] Inr fr a w l show ?thesis
        by (auto split: sum.splits prod.splits)
    qed
  qed
qed

lemma run_datapoints_length:
  fixes vs :: "('s, 'v, 'r) inferencer list" and ev :: "('v, 'f) event list"
  assumes "run_datapoints p tms vs dps = Inr (ev, vs')"
  shows "length vs' = length vs"
  using run_datapoints_length_only [OF refl, of p tms vs dps, where ?'f = 'f] assms by simp

lemma run_datapoints_same_events:
  fixes vs ws :: "('s, 'v, 'r) inferencer list" and ev :: "('v, 'f) event list"
  assumes "length vs = length ws" and "run_datapoints p tms vs dps = Inr (ev, vs')"
  shows "\<exists>ws'. run_datapoints p tms ws dps = Inr (ev, ws')"
  using run_datapoints_length_only [OF assms(1), of p tms dps, where ?'f = 'f] assms(2) by simp

lemma length_before_all: "length (before_all vs) = length vs"
  by (simp add: before_all_def)

lemma no_Datapoint_before_events: "filter is_Datapoint (before_events vs) = []"
  by (simp add: before_events_def no_Datapoint_before)

lemma trigger_Inr:
  fixes r :: "('s, 'v, 'r, 'd) InferenceRunner_graph" and float :: "'r \<Rightarrow> py_error + 'f"
  assumes "ds_size (ds r) (reset_state (ds r) (ds_state (ds r))) = Inr n"
      and "run_datapoints (predictor r) (inf_to_tensors r) (before_all (infs r))
             (fst (get_data (ds r) (reset_state (ds r) (ds_state (ds r))))) = Inr (e1, vs1)"
  shows "InferenceRunner_trigger float r
           = Inr (before_events (infs r) @ [ResetState] @ e1 @ fst (summary_inferencer float vs1),
                  r\<lparr>ds := (ds r)\<lparr>ds_state := snd (get_data (ds r) (reset_state (ds r) (ds_state (ds r))))\<rparr>,
                    infs := snd (summary_inferencer float vs1)\<rparr>)"
  using assms
  by (simp add: InferenceRunner_trigger_def Let_def split_beta)

lemma trigger_InrD:
  fixes r :: "('s, 'v, 'r, 'd) InferenceRunner_graph" and float :: "'r \<Rightarrow> py_error + 'f"
  assumes "InferenceRunner_trigger float r = Inr (ev, r')"
  shows "\<exists>n e1 vs1.
           ds_size (ds r) (reset_state (ds r) (ds_state (ds r))) = Inr n
         \<and> run_datapoints (predictor r) (inf_to_tensors r) (before_all (infs r))
             (fst (get_data (ds r) (reset_state (ds r) (ds_state (ds r))))) = Inr (e1, vs1)
         \<and> ev = before_events (infs r) @ [ResetState] @ e1 @ fst (summary_inferencer float vs1)
         \<and> r' = r\<lparr>ds := (ds r)\<lparr>ds_state := snd (get_data (ds r) (reset_state (ds r) (ds_state (ds r))))\<rparr>,
                    infs := snd (summary_inferencer float vs1)\<rparr>"
  using assms
  by (auto simp: InferenceRunner_trigger_def Let_def split_beta split: sum.splits)

lemma no_hook_emit_stats:
  "filter (\<lambda>e. is_Datapoint e \<or> e = AfterInference i) (emit_stats float cname items) = []"
  by (induction items) (auto split: sum.splits)

lemma find_output_tensors_single:
  assumes "snd (get_op_tensor_name n) \<notin> set inames"
  shows "InferenceRunner_find_output_tensors inames [[n]]
           = Inr ([snd (get_op_tensor_name n)], [[\<lparr>index = 0, isOutput = True\<rparr>]])"
proof -
  have "get_all_names (add_entries [[n]]) = [snd (get_op_tensor_name n)]"
    by (simp add: get_all_names_def add_entries_def add_entry_def OutputTensorDispatcher_def)
  with assms show ?thesis
    by (simp add: find_output_tensors_eq canonical_def)
qed

section \<open>One pass of the fed runner\<close>

text \<open>
  C4. Take a runner built by the constructor from a dataflow and a single inferencer
  that requests one name, whose tensor is not an input, and set up on a trainer. Let the
  dataflow, after the reset, report a size and yield the three datapoints \<open>dp1\<close>,
  \<open>dp2\<close>, \<open>dp3\<close>, and let the predictor answer them with the one-element outputs
  \<open>[o1]\<close>, \<open>[o2]\<close>, \<open>[o3]\<close>. Then construction, setup and trigger all return, and
  the events of the trigger are: \<^verbatim>\<open>before_inference\<close>, the reset, the three
  \<^verbatim>\<open>datapoint\<close> calls with \<open>[o1]\<close>, \<open>[o2]\<close>, \<open>[o3]\<close> in this order, one
  \<^verbatim>\<open>after_inference\<close> call, and the summaries of what that call returns on the state
  the three datapoints have left. So the per-datapoint hook is called exactly three times
  and the finalization hook exactly once, after the third.
\<close>

theorem trigger_three_datapoints:
  fixes infr :: "('s, 'v, 'r) inferencer" and df :: "('d, 'v) dataflow"
    and tr :: "('v, 't, 'g) trainer" and float :: "'r \<Rightarrow> py_error + 'f"
    and ev :: "('v, 'f) event list"
  assumes req: "get_output_tensors infr = [n]"
      and out: "snd (get_op_tensor_name n) \<notin> set (InferenceRunner_find_input_tensors tr nms)"
      and data: "fst (get_data df (reset_state df (ds_state df))) = [dp1, dp2, dp3]"
      and size: "ds_size df (reset_state df (ds_state df)) = Inr sz"
      and p1: "get_predictor tr (InferenceRunner_find_input_tensors tr nms)
                 [snd (get_op_tensor_name n)] dp1 = Inr [o1]"
      and p2: "get_predictor tr (InferenceRunner_find_input_tensors tr nms)
                 [snd (get_op_tensor_name n)] dp2 = Inr [o2]"
      and p3: "get_predictor tr (InferenceRunner_find_input_tensors tr nms)
                 [snd (get_op_tensor_name n)] dp3 = Inr [o3]"
      and s3: "s3 = datapoint infr (datapoint infr (datapoint infr
                 (before_inference infr (inf_state infr)) [o1]) [o2]) [o3]"
      and ev: "ev = [BeforeInference 0, ResetState, Datapoint 0 [o1], Datapoint 0 [o2],
                     Datapoint 0 [o3], AfterInference 0]
                    @ emit_stats float (class_name infr) (fst (after_inference infr s3))"
  shows "\<exists>r0 r r'.
           InferenceRunner_init
             (DataFlow df :: (('s, 'v, 'r) inferencer, ('d, 'v) dataflow, 'p) pyobj)
             (Inferencer infr) nms = Inr r0
         \<and> InferenceRunner_setup_graph tr r0 = Inr r
         \<and> InferenceRunner_trigger float r = Inr (ev, r')
         \<and> filter (\<lambda>e. is_Datapoint e \<or> e = AfterInference 0) ev
             = [Datapoint 0 [o1], Datapoint 0 [o2], Datapoint 0 [o3], AfterInference 0]"
proof -
  let ?inames = "InferenceRunner_find_input_tensors tr nms"
  let ?t = "snd (get_op_tensor_name n)"
  let ?init = "\<lparr>ds = df, infs = [infr], input_names = nms\<rparr>"
  let ?r = "\<lparr>ds = df, infs = [infr], input_names = Some ?inames,
             output_names = [?t], inf_to_tensors = [[\<lparr>index = 0, isOutput = True\<rparr>]],
             predictor = get_predictor tr ?inames [?t]\<rparr>"
  have built: "InferenceRunner_init
      (DataFlow df :: (('s, 'v, 'r) inferencer, ('d, 'v) dataflow, 'p) pyobj)
      (Inferencer infr) nms = Inr ?init"
    by (simp add: InferenceRunner_init_def)
  have graph: "InferenceRunner_setup_graph tr ?init = Inr ?r"
    using find_output_tensors_single [OF out]
    by (simp add: InferenceRunner_setup_graph_def req Let_def)
  let ?va = "infr\<lparr>inf_state := before_inference infr (inf_state infr)\<rparr>"
  let ?ws = "[infr\<lparr>inf_state := s3\<rparr>]"
  have run: "run_datapoints (predictor ?r) (inf_to_tensors ?r) (before_all (infs ?r))
               (fst (get_data (ds ?r) (reset_state (ds ?r) (ds_state (ds ?r)))))
           = Inr ([Datapoint 0 [o1], Datapoint 0 [o2], Datapoint 0 [o3]], ?ws)"
    by (simp add: data p1 p2 p3 s3 before_all_def inf_output_of_def getitem_def)
  have sz: "ds_size (ds ?r) (reset_state (ds ?r) (ds_state (ds ?r))) = Inr sz"
    by (simp add: size)
  have summ: "fst (summary_inferencer float ?ws)
      = AfterInference 0 # emit_stats float (class_name infr) (fst (after_inference infr s3))"
    by (simp add: summary_inferencer_def split_beta)
  have "InferenceRunner_trigger float ?r
      = Inr (ev, ?r\<lparr>ds := (ds ?r)\<lparr>ds_state := snd (get_data (ds ?r)
                       (reset_state (ds ?r) (ds_state (ds ?r))))\<rparr>,
                    infs := snd (summary_inferencer float ?ws)\<rparr>)"
    unfolding trigger_Inr [OF sz run] by (simp add: summ ev before_events_def)
  moreover have "filter (\<lambda>e. is_Datapoint e \<or> e = AfterInference 0) ev
             = [Datapoint 0 [o1], Datapoint 0 [o2], Datapoint 0 [o3], AfterInference 0]"
    by (simp add: ev no_hook_emit_stats)
  ultimately show ?thesis using built graph by blast
qed

theorem trigger_three_datapoints_witness:
  "\<exists>r0 r r'.
     InferenceRunner_init (DataFlow
       (\<lparr>ds_state = 0, reset_state = (\<lambda>s. 0), ds_size = (\<lambda>s. Inr 3),
       get_data = (\<lambda>s. ([[1], [2], [3]], Suc s))\<rparr> :: (nat, nat) dataflow))
       (Inferencer (\<lparr>class_name = ''Count'', inf_state = [], get_output_tensors = [''out''],
       before_inference = (\<lambda>s. []), datapoint = (\<lambda>s a. s @ [a]),
       after_inference = (\<lambda>s. ([(''count'', length s)], s))\<rparr> :: (nat list list, nat, nat) inferencer)
          :: ((nat list list, nat, nat) inferencer, (nat, nat) dataflow, unit) pyobj) None = Inr r0
   \<and> InferenceRunner_setup_graph (\<lparr>get_reused_placehdrs = [Tensor ''input:0''],
       get_predictor = (\<lambda>ins outs dp. Inr (map (\<lambda>x. 10 * x) dp)),
       build_tower = (\<lambda>ts p. Map.empty), get_predict_tower_name = (\<lambda>k p. p),
       sess_run = (\<lambda>g ts. Inl KeyError)\<rparr> :: (nat, unit, unit) trainer) r0 = Inr r
   \<and> InferenceRunner_trigger Inr r
        = Inr ([BeforeInference 0, ResetState, Datapoint 0 [10], Datapoint 0 [20], Datapoint 0 [30],
       AfterInference 0, AddScalarSummary ''count'' 3] :: (nat, nat) event list, r')
   \<and> filter (\<lambda>e. is_Datapoint e \<or> e = AfterInference 0) ([BeforeInference 0, ResetState, Datapoint 0 [10], Datapoint 0 [20], Datapoint 0 [30],
       AfterInference 0, AddScalarSummary ''count'' 3])
        = [Datapoint 0 [10], Datapoint 0 [20], Datapoint 0 [30], AfterInference 0]"
  using trigger_three_datapoints
    [where infr = "(\<lparr>class_name = ''Count'', inf_state = [], get_output_tensors = [''out''],
       before_inference = (\<lambda>s. []), datapoint = (\<lambda>s a. s @ [a]),
       after_inference = (\<lambda>s. ([(''count'', length s)], s))\<rparr>
         :: (nat list list, nat, nat) inferencer)" and n = "''out''" and tr = "(\<lparr>get_reused_placehdrs = [Tensor ''input:0''],
       get_predictor = (\<lambda>ins outs dp. Inr (map (\<lambda>x. 10 * x) dp)),
       build_tower = (\<lambda>ts p. Map.empty), get_predict_tower_name = (\<lambda>k p. p),
       sess_run = (\<lambda>g ts. Inl KeyError)\<rparr> :: (nat, unit, unit) trainer)" and nms = None
       and df = "(\<lparr>ds_state = 0, reset_state = (\<lambda>s. 0), ds_size = (\<lambda>s. Inr 3),
       get_data = (\<lambda>s. ([[1], [2], [3]], Suc s))\<rparr> :: (nat, nat) dataflow)" and ?dp1.0 = "[1]" and ?dp2.0 = "[2]" and ?dp3.0 = "[3]" and sz = 3
       and ?o1.0 = 10 and ?o2.0 = 20 and ?o3.0 = 30 and ?s3.0 = "[[10], [20], [30]]"
       and float = "Inr :: nat \<Rightarrow> py_error + nat" and ev = "([BeforeInference 0, ResetState, Datapoint 0 [10], Datapoint 0 [20], Datapoint 0 [30],
       AfterInference 0, AddScalarSummary ''count'' 3] :: (nat, nat) event list)", where ?'p = unit]
  by (simp add: InferenceRunner_find_input_tensors_def get_op_tensor_name_def)

section \<open>Two passes of the fed runner\<close>

text \<open>
  C6. Let a trigger of the fed runner return, and let the dataflow, reset from the state
  in which that pass has left it, report the same size and yield the same datapoints as
  it did after the first reset. Then a second trigger, on the runner as the first has
  left it, returns as well, and its \<^verbatim>\<open>datapoint\<close> calls are those of the first pass:
  the same inferencers receive the same arguments in the same order. The predictor is a
  function of the datapoint, which the trigger does not change.
\<close>

theorem trigger_twice:
  fixes r :: "('s, 'v, 'r, 'd) InferenceRunner_graph" and float :: "'r \<Rightarrow> py_error + 'f"
  assumes first: "InferenceRunner_trigger float r = Inr (ev1, r1)"
      and data: "fst (get_data (ds r) (reset_state (ds r) (ds_state (ds r1))))
                   = fst (get_data (ds r) (reset_state (ds r) (ds_state (ds r))))"
      and size: "ds_size (ds r) (reset_state (ds r) (ds_state (ds r1)))
                   = ds_size (ds r) (reset_state (ds r) (ds_state (ds r)))"
  shows "\<exists>ev2 r2. InferenceRunner_trigger float r1 = Inr (ev2, r2)
           \<and> filter is_Datapoint ev2 = filter is_Datapoint ev1"
proof -
  let ?dps = "fst (get_data (ds r) (reset_state (ds r) (ds_state (ds r))))"
  from trigger_InrD [OF first] obtain n e1 vs1 where
    n: "ds_size (ds r) (reset_state (ds r) (ds_state (ds r))) = Inr n"
    and run: "run_datapoints (predictor r) (inf_to_tensors r) (before_all (infs r)) ?dps
                = Inr (e1, vs1)"
    and ev1: "ev1 = before_events (infs r) @ [ResetState] @ e1 @ fst (summary_inferencer float vs1)"
    and r1: "r1 = r\<lparr>ds := (ds r)\<lparr>ds_state := snd (get_data (ds r) (reset_state (ds r) (ds_state (ds r))))\<rparr>,
                    infs := snd (summary_inferencer float vs1)\<rparr>"
    by blast
  have fields: "predictor r1 = predictor r" "inf_to_tensors r1 = inf_to_tensors r"
    "reset_state (ds r1) = reset_state (ds r)" "get_data (ds r1) = get_data (ds r)"
    "ds_size (ds r1) = ds_size (ds r)" "infs r1 = snd (summary_inferencer float vs1)"
    by (simp_all add: r1)
  from run_datapoints_length [OF run]
  have "length vs1 = length (infs r)"
    by (simp add: length_before_all)
  then have len: "length (before_all (infs r)) = length (before_all (infs r1))"
    by (simp add: length_before_all fields summary_inferencer_def length_summary_from)
  from run_datapoints_same_events [OF len run]
  obtain ws1 where run2: "run_datapoints (predictor r) (inf_to_tensors r)
      (before_all (infs r1)) ?dps = Inr (e1, ws1)"
    by auto
  have n2: "ds_size (ds r1) (reset_state (ds r1) (ds_state (ds r1))) = Inr n"
    using size n by (simp add: fields)
  have run2': "run_datapoints (predictor r1) (inf_to_tensors r1) (before_all (infs r1))
             (fst (get_data (ds r1) (reset_state (ds r1) (ds_state (ds r1))))) = Inr (e1, ws1)"
    using run2 data by (simp add: fields)
  note t2 = trigger_Inr [OF n2 run2', of float]
  have "filter is_Datapoint
          (before_events (infs r1) @ [ResetState] @ e1 @ fst (summary_inferencer float ws1))
      = filter is_Datapoint ev1"
    by (simp add: ev1 no_Datapoint_before_events summary_inferencer_def no_Datapoint_summary_from)
  with t2 show ?thesis by blast
qed

theorem trigger_twice_witness:
  "\<exists>ev1 r1 ev2 r2.
     InferenceRunner_trigger (Inr :: nat \<Rightarrow> py_error + nat)
       (\<lparr>ds = \<lparr>ds_state = 0, reset_state = (\<lambda>s. 0), ds_size = (\<lambda>s. Inr 3),
               get_data = (\<lambda>s. ([[1], [2], [3]], Suc s))\<rparr>,
        infs = [\<lparr>class_name = ''Count'', inf_state = [], get_output_tensors = [''out''],
          before_inference = (\<lambda>s. []), datapoint = (\<lambda>s a. s @ [a]),
          after_inference = (\<lambda>s. ([(''count'', length s)], s))\<rparr>],
        input_names = Some [''input:0''], output_names = [''out:0''],
        inf_to_tensors = [[\<lparr>index = 0, isOutput = True\<rparr>]],
        predictor = (\<lambda>dp. Inr (map (\<lambda>x. 10 * x) dp))\<rparr>
       :: (nat list list, nat, nat, nat) InferenceRunner_graph) = Inr (ev1, r1)
   \<and> InferenceRunner_trigger Inr r1 = Inr (ev2, r2)
   \<and> filter is_Datapoint ev2 = filter is_Datapoint ev1
   \<and> filter is_Datapoint ev1 = [Datapoint 0 [10], Datapoint 0 [20], Datapoint 0 [30]]"
proof -
  let ?R = "(\<lparr>ds = \<lparr>ds_state = 0, reset_state = (\<lambda>s. 0), ds_size = (\<lambda>s. Inr 3),
               get_data = (\<lambda>s. ([[1], [2], [3]], Suc s))\<rparr>,
        infs = [\<lparr>class_name = ''Count'', inf_state = [], get_output_tensors = [''out''],
          before_inference = (\<lambda>s. []), datapoint = (\<lambda>s a. s @ [a]),
          after_inference = (\<lambda>s. ([(''count'', length s)], s))\<rparr>],
        input_names = Some [''input:0''], output_names = [''out:0''],
        inf_to_tensors = [[\<lparr>index = 0, isOutput = True\<rparr>]],
        predictor = (\<lambda>dp. Inr (map (\<lambda>x. 10 * x) dp))\<rparr>
       :: (nat list list, nat, nat, nat) InferenceRunner_graph)"
  let ?R1 = "?R\<lparr>ds := (ds ?R)\<lparr>ds_state := 1\<rparr>,
                infs := [(hd (infs ?R))\<lparr>inf_state := [[10], [20], [30]]\<rparr>]\<rparr>"
  let ?ev1 = "[BeforeInference 0, ResetState, Datapoint 0 [10], Datapoint 0 [20],
               Datapoint 0 [30], AfterInference 0, AddScalarSummary ''count'' 3]
              :: (nat, nat) event list"
  have first: "InferenceRunner_trigger (Inr :: nat \<Rightarrow> py_error + nat) ?R = Inr (?ev1, ?R1)"
    by (simp add: InferenceRunner_trigger_def Let_def before_all_def before_events_def
        summary_inferencer_def inf_output_of_def getitem_def)
  have "\<exists>ev2 r2. InferenceRunner_trigger Inr ?R1 = Inr (ev2, r2)
           \<and> filter is_Datapoint ev2 = filter is_Datapoint ?ev1"
    by (rule trigger_twice [OF first]) simp_all
  then obtain ev2 r2 where second: "InferenceRunner_trigger Inr ?R1 = Inr (ev2, r2)"
    and same: "filter is_Datapoint ev2 = filter is_Datapoint ?ev1"
    by blast
  have calls: "filter is_Datapoint ?ev1 = [Datapoint 0 [10], Datapoint 0 [20], Datapoint 0 [30]]"
    by simp
  from first second same calls show ?thesis by blast
qed

section \<open>Properties of the feedfree trigger\<close>

lemma idxs_valid_add_entries:
  assumes "l \<in> set (idxs (add_entries es))" and "k \<in> set l"
  shows "k < length (names (add_entries es))"
proof -
  from assms(1) obtain i where i: "i < length es" and l: "l = idxs (add_entries es) ! i"
    by (auto simp: in_set_conv_nth length_idxs_add_entries)
  from idxs_add_entries [OF i] assms(2) show ?thesis
    by (auto simp: l first_index_less)
qed

lemma count_SessRun_before: "count_list (before_events vs) SessRun = 0"
proof -
  have "count_list (map BeforeInference ns) SessRun = 0" for ns
    by (induction ns) auto
  then show ?thesis by (simp add: before_events_def)
qed

lemma count_SessRun_emit_stats: "count_list (emit_stats float cname items) SessRun = 0"
  by (induction items) (auto split: sum.splits)

lemma count_SessRun_summary_from: "count_list (fst (summary_from float i vs)) SessRun = 0"
proof (induction vs arbitrary: i)
  case Nil
  then show ?case by simp
next
  case (Cons v vs)
  obtain ret s' where a: "after_inference v (inf_state v) = (ret, s')"
    by (cases "after_inference v (inf_state v)")
  obtain evs rest' where b: "summary_from float (Suc i) vs = (evs, rest')"
    by (cases "summary_from float (Suc i) vs")
  from Cons.IH [of "Suc i"] b have "count_list evs SessRun = 0" by simp
  with a b show ?case by (simp add: count_SessRun_emit_stats)
qed

lemma feedfree_setup_graphD:
  assumes "FeedfreeInferenceRunner_setup_graph tr r = Inr rg"
  shows "ff_size rg = ff_size r \<and> ff_infs rg = ff_infs r
       \<and> inf_to_idxs rg = idxs (add_entries (map get_output_tensors (ff_infs r)))
       \<and> length (ff_output_tensors rg)
           = length (names (add_entries (map get_output_tensors (ff_infs r))))"
  using assms
  by (auto simp: FeedfreeInferenceRunner_setup_graph_def Let_def
      FeedfreeInferenceRunner_find_output_tensors_def get_idx_for_each_entry_def
      get_all_names_def split: sum.splits dest: traverse_length)

lemma feedfree_init_no_size:
  assumes "input_size inp = Inl NotImplementedError"
  shows "\<exists>e. FeedfreeInferenceRunner_init (TensorInput inp) infs_arg names_arg prefix = Inl e"
  using assms
  by (simp add: FeedfreeInferenceRunner_init_def split: sum.splits)

lemma feed_infs_spec:
  fixes vs :: "('s, 'v, 'r) inferencer list"
  assumes "length vs = length idlists"
      and "\<forall>l \<in> set idlists. \<forall>k \<in> set l. k < length outputs"
  shows "(feed_infs (traverse (getitem outputs)) i vs idlists
            :: py_error + ('v, 'f) event list \<times> ('s, 'v, 'r) inferencer list)
       = Inr (map (\<lambda>(j, idlist). Datapoint j (map (\<lambda>k. outputs ! k) idlist)) (enumerate i idlists),
              map (\<lambda>(infr, idlist).
                     infr\<lparr>inf_state := datapoint infr (inf_state infr)
                                          (map (\<lambda>k. outputs ! k) idlist)\<rparr>) (zip vs idlists))"
  using assms
proof (induction vs idlists arbitrary: i rule: list_induct2)
  case Nil
  then show ?case by simp
next
  case (Cons v vs m ms)
  from Cons.prems have "\<forall>k \<in> set m. k < length outputs" by simp
  then have pick: "traverse (getitem outputs) m = Inr (map (\<lambda>k. outputs ! k) m)"
    by (intro traverse_Inr) (simp add: getitem_def)
  from Cons.prems have "\<forall>l \<in> set ms. \<forall>k \<in> set l. k < length outputs" by simp
  from Cons.IH [OF this, of "Suc i"] pick show ?case by simp
qed

lemma run_steps_spec:
  fixes vs :: "('s, 'v, 'r) inferencer list"
  assumes run: "\<And>g'. run g' fetches = Inr (out g', nxt g')"
      and len: "\<And>g'. length (out g') = m"
      and valid: "\<forall>l \<in> set idlists. \<forall>k \<in> set l. k < m"
      and vs: "length vs = length idlists"
  shows "(run_steps run fetches idlists n vs g
            :: py_error + ('v, 'f) event list \<times> ('s, 'v, 'r) inferencer list \<times> 'g)
       = Inr (concat (map (\<lambda>k. step_events idlists (out ((nxt ^^ k) g))) [0..<n]),
              inferencers_after idlists (map (\<lambda>k. out ((nxt ^^ k) g)) [0..<n]) vs,
              (nxt ^^ n) g)"
  using vs
proof (induction n arbitrary: vs g)
  case 0
  then show ?case by simp
next
  case (Suc n)
  let ?vs1 = "map (\<lambda>(infr, idlist).
                     infr\<lparr>inf_state := datapoint infr (inf_state infr)
                                          (map (\<lambda>k. out g ! k) idlist)\<rparr>) (zip vs idlists)"
  from valid len have "\<forall>l \<in> set idlists. \<forall>k \<in> set l. k < length (out g)" by simp
  from feed_infs_spec [OF Suc.prems this, of 0, where ?'f = 'f]
  have f: "(feed_infs (traverse (getitem (out g))) 0 vs idlists
            :: py_error + ('v, 'f) event list \<times> ('s, 'v, 'r) inferencer list)
       = Inr (map (\<lambda>(j, idlist). Datapoint j (map (\<lambda>k. out g ! k) idlist)) (enumerate 0 idlists),
              ?vs1)" .
  have "length ?vs1 = length idlists" using Suc.prems by simp
  note ih = Suc.IH [OF this, of "nxt g"]
  have shift: "map (\<lambda>k. h ((nxt ^^ k) g)) [0..<Suc n]
             = h g # map (\<lambda>k. h ((nxt ^^ k) (nxt g))) [0..<n]" for h :: "'g \<Rightarrow> 'x"
  proof -
    have "[0..<Suc n] = 0 # map Suc [0..<n]"
      by (simp add: upt_conv_Cons map_Suc_upt del: upt_Suc)
    then show ?thesis
      by (simp add: funpow_swap1 comp_def del: upt_Suc)
  qed
  have pow: "(nxt ^^ Suc n) g = (nxt ^^ n) (nxt g)"
    by (simp add: funpow_swap1)
  have "(run_steps run fetches idlists (Suc n) vs g
            :: py_error + ('v, 'f) event list \<times> ('s, 'v, 'r) inferencer list \<times> 'g)
      = Inr (step_events idlists (out g)
               @ concat (map (\<lambda>k. step_events idlists (out ((nxt ^^ k) (nxt g)))) [0..<n]),
             inferencers_after idlists (out g # map (\<lambda>k. out ((nxt ^^ k) (nxt g))) [0..<n]) vs,
             (nxt ^^ n) (nxt g))"
    by (simp add: run f ih step_events_def)
  also have "step_events idlists (out g)
               @ concat (map (\<lambda>k. step_events idlists (out ((nxt ^^ k) (nxt g)))) [0..<n])
      = (concat (map (\<lambda>k. step_events idlists (out ((nxt ^^ k) g))) [0..<Suc n])
           :: ('v, 'f) event list)"
    unfolding shift [of "\<lambda>x. step_events idlists (out x)"] by simp
  also have "out g # map (\<lambda>k. out ((nxt ^^ k) (nxt g))) [0..<n]
      = map (\<lambda>k. out ((nxt ^^ k) g)) [0..<Suc n]"
    unfolding shift [of out] by simp
  finally show ?case unfolding pow .
qed

section \<open>The size of the feedfree input\<close>

text \<open>
  C8. When \<^verbatim>\<open>size()\<close> of the input raises \<^verbatim>\<open>NotImplementedError\<close>, the
  constructor of the feedfree runner fails whatever the other arguments are, and with
  \<^verbatim>\<open>ValueError\<close> when they pass their assertions; it takes no trainer and no graph.
  When \<^verbatim>\<open>size()\<close> returns \<open>n\<close>, the constructor returns a runner whose
  \<^verbatim>\<open>_size\<close> is \<open>n\<close>, and setup keeps it. Once that runner is set up, let
  \<^verbatim>\<open>sess.run\<close> on the fetched tensors return, in the session state \<open>g'\<close>, the
  values \<open>out g'\<close>, one per tensor, and leave the state \<open>nxt g'\<close>. Then a trigger
  returns, and it has run exactly the \<open>n\<close> steps \<open>0, \<dots>, n - 1\<close>: step \<open>k\<close> is one
  \<^verbatim>\<open>sess.run\<close> in the state that \<open>k\<close> runs have left, followed by one
  \<^verbatim>\<open>datapoint\<close> call per inferencer with the values of that run at its indices; the
  session is left in the state after \<open>n\<close> runs, the inferencers are those that have
  received these values, and nothing else is run: the events before and after the steps
  are those of \<^verbatim>\<open>before_inference\<close> and of the summaries.
\<close>

theorem feedfree_size:
  fixes inp :: "'t tensor_input" and vs :: "('s, 'v, 'r) inferencer list"
    and float :: "'r \<Rightarrow> py_error + 'f"
    and infs_arg names_arg :: "(('s, 'v, 'r) inferencer, 'd, 't tensor_input) pyobj"
  shows "(input_size inp = Inl NotImplementedError \<longrightarrow>
            (\<exists>e. FeedfreeInferenceRunner_init (TensorInput inp) infs_arg names_arg prefix = Inl e)
          \<and> FeedfreeInferenceRunner_init (TensorInput inp)
               (PyList (map Inferencer vs)
                  :: (('s, 'v, 'r) inferencer, 'd, 't tensor_input) pyobj) PyNone prefix
              = Inl ValueError)
       \<and> (input_size inp = Inr n \<longrightarrow>
            (\<exists>r. FeedfreeInferenceRunner_init (TensorInput inp)
                    (PyList (map Inferencer vs)
                       :: (('s, 'v, 'r) inferencer, 'd, 't tensor_input) pyobj) PyNone prefix
                   = Inr r
                \<and> ff_size r = n
                \<and> (\<forall>(tr :: ('v, 't, 'g) trainer) rg g out nxt.
                      FeedfreeInferenceRunner_setup_graph tr r = Inr rg \<longrightarrow>
                      (\<forall>g'. sess_run tr g' (ff_output_tensors rg) = Inr (out g', nxt g')
                            \<and> length (out g') = length (ff_output_tensors rg)) \<longrightarrow>
                      ff_size rg = n
                    \<and> FeedfreeInferenceRunner_trigger float tr rg g
                        = Inr (before_events (ff_infs rg)
                                 @ concat (map (\<lambda>k. step_events (inf_to_idxs rg) (out ((nxt ^^ k) g)))
                                             [0..<n])
                                 @ fst (summary_inferencer float
                                     (inferencers_after (inf_to_idxs rg)
                                        (map (\<lambda>k. out ((nxt ^^ k) g)) [0..<n])
                                        (before_all (ff_infs rg)))),
                               rg\<lparr>ff_infs := snd (summary_inferencer float
                                     (inferencers_after (inf_to_idxs rg)
                                        (map (\<lambda>k. out ((nxt ^^ k) g)) [0..<n])
                                        (before_all (ff_infs rg))))\<rparr>,
                               (nxt ^^ n) g)
                    \<and> count_list
                         (before_events (ff_infs rg)
                            @ concat (map (\<lambda>k. step_events (inf_to_idxs rg) (out ((nxt ^^ k) g)))
                                        [0..<n])
                            @ fst (summary_inferencer float
                                (inferencers_after (inf_to_idxs rg)
                                   (map (\<lambda>k. out ((nxt ^^ k) g)) [0..<n])
                                   (before_all (ff_infs rg))))
                          :: ('v, 'f) event list) SessRun = n)))"
proof (intro conjI impI)
  assume "input_size inp = Inl NotImplementedError"
  then show "\<exists>e. FeedfreeInferenceRunner_init (TensorInput inp) infs_arg names_arg prefix = Inl e"
    by (rule feedfree_init_no_size)
next
  assume "input_size inp = Inl NotImplementedError"
  then show "FeedfreeInferenceRunner_init (TensorInput inp)
               (PyList (map Inferencer vs)
                  :: (('s, 'v, 'r) inferencer, 'd, 't tensor_input) pyobj) PyNone prefix
              = Inl ValueError"
    by (simp add: FeedfreeInferenceRunner_init_def traverse_assert_ok)
next
  assume sz: "input_size inp = Inr n"
  let ?r = "\<lparr>ff_input_data = inp, ff_infs = vs, ff_input_names = None,
             ff_size = n, ff_prefix = prefix\<rparr>"
  have built: "FeedfreeInferenceRunner_init (TensorInput inp)
                    (PyList (map Inferencer vs)
                       :: (('s, 'v, 'r) inferencer, 'd, 't tensor_input) pyobj) PyNone prefix
                   = Inr ?r"
    using sz by (simp add: FeedfreeInferenceRunner_init_def traverse_assert_ok)
  have steps: "ff_size rg = n
      \<and> FeedfreeInferenceRunner_trigger float tr rg g
          = Inr (before_events (ff_infs rg)
                   @ concat (map (\<lambda>k. step_events (inf_to_idxs rg) (out ((nxt ^^ k) g))) [0..<n])
                   @ fst (summary_inferencer float
                       (inferencers_after (inf_to_idxs rg)
                          (map (\<lambda>k. out ((nxt ^^ k) g)) [0..<n]) (before_all (ff_infs rg)))),
                 rg\<lparr>ff_infs := snd (summary_inferencer float
                       (inferencers_after (inf_to_idxs rg)
                          (map (\<lambda>k. out ((nxt ^^ k) g)) [0..<n]) (before_all (ff_infs rg))))\<rparr>,
                 (nxt ^^ n) g)
      \<and> count_list
           (before_events (ff_infs rg)
              @ concat (map (\<lambda>k. step_events (inf_to_idxs rg) (out ((nxt ^^ k) g))) [0..<n])
              @ fst (summary_inferencer float
                  (inferencers_after (inf_to_idxs rg)
                     (map (\<lambda>k. out ((nxt ^^ k) g)) [0..<n]) (before_all (ff_infs rg))))
            :: ('v, 'f) event list) SessRun = n"
    if graph: "FeedfreeInferenceRunner_setup_graph tr ?r = Inr rg"
      and run: "\<forall>g'. sess_run tr g' (ff_output_tensors rg) = Inr (out g', nxt g')
                      \<and> length (out g') = length (ff_output_tensors rg)"
    for tr :: "('v, 't, 'g) trainer" and rg g out nxt
  proof -
    from feedfree_setup_graphD [OF graph]
    have size: "ff_size rg = n" and vs: "ff_infs rg = vs"
      and idl: "inf_to_idxs rg = idxs (add_entries (map get_output_tensors vs))"
      and len: "length (ff_output_tensors rg)
                  = length (names (add_entries (map get_output_tensors vs)))"
      by simp_all
    have valid: "\<forall>l \<in> set (inf_to_idxs rg). \<forall>k \<in> set l. k < length (ff_output_tensors rg)"
      unfolding idl len by (blast intro: idxs_valid_add_entries)
    have lens: "length (before_all (ff_infs rg)) = length (inf_to_idxs rg)"
      by (simp add: idl vs length_before_all length_idxs_add_entries)
    let ?outs = "map (\<lambda>k. out ((nxt ^^ k) g)) [0..<n]"
    let ?mid = "concat (map (\<lambda>k. step_events (inf_to_idxs rg) (out ((nxt ^^ k) g))) [0..<n])
                 :: ('v, 'f) event list"
    have rs: "(run_steps (sess_run tr) (ff_output_tensors rg) (inf_to_idxs rg) n
                 (before_all (ff_infs rg)) g
               :: py_error + ('v, 'f) event list \<times> ('s, 'v, 'r) inferencer list \<times> 'g)
            = Inr (?mid, inferencers_after (inf_to_idxs rg) ?outs (before_all (ff_infs rg)),
                   (nxt ^^ n) g)"
      using run valid lens
      by (intro run_steps_spec [where m = "length (ff_output_tensors rg)"]) simp_all
    have trig: "FeedfreeInferenceRunner_trigger float tr rg g
          = Inr (before_events (ff_infs rg) @ ?mid
                   @ fst (summary_inferencer float
                       (inferencers_after (inf_to_idxs rg) ?outs (before_all (ff_infs rg)))),
                 rg\<lparr>ff_infs := snd (summary_inferencer float
                       (inferencers_after (inf_to_idxs rg) ?outs (before_all (ff_infs rg))))\<rparr>,
                 (nxt ^^ n) g)"
      by (simp add: FeedfreeInferenceRunner_trigger_def Let_def size rs split_beta)
    have one: "count_list (step_events l outputs :: ('v, 'f) event list) SessRun = 1"
      for l :: "nat list list" and outputs :: "'v list"
    proof -
      have "count_list (map (\<lambda>(i, idlist). Datapoint i (f idlist)) xs :: ('v, 'f) event list)
              SessRun = 0" for xs :: "(nat \<times> nat list) list" and f
        by (induction xs) auto
      then show ?thesis by (simp add: step_events_def)
    qed
    have "count_list (concat (map (\<lambda>k. step_events l (h k)) ks) :: ('v, 'f) event list) SessRun
            = length ks" for l :: "nat list list" and h :: "nat \<Rightarrow> 'v list" and ks :: "nat list"
      by (induction ks) (simp_all add: one)
    then have cnt: "count_list ?mid SessRun = n" by simp
    have "count_list (before_events (ff_infs rg) @ ?mid
              @ fst (summary_inferencer float
                  (inferencers_after (inf_to_idxs rg) ?outs (before_all (ff_infs rg)))))
            SessRun = n"
      by (simp add: cnt count_SessRun_before summary_inferencer_def count_SessRun_summary_from)
    with size trig show ?thesis by simp
  qed
  have all_steps: "\<forall>(tr :: ('v, 't, 'g) trainer) rg g out nxt.
                      FeedfreeInferenceRunner_setup_graph tr ?r = Inr rg \<longrightarrow>
                      (\<forall>g'. sess_run tr g' (ff_output_tensors rg) = Inr (out g', nxt g')
                            \<and> length (out g') = length (ff_output_tensors rg)) \<longrightarrow>
                      ff_size rg = n
                    \<and> FeedfreeInferenceRunner_trigger float tr rg g
                        = Inr (before_events (ff_infs rg)
                                 @ concat (map (\<lambda>k. step_events (inf_to_idxs rg) (out ((nxt ^^ k) g)))
                                             [0..<n])
                                 @ fst (summary_inferencer float
                                     (inferencers_after (inf_to_idxs rg)
                                        (map (\<lambda>k. out ((nxt ^^ k) g)) [0..<n])
                                        (before_all (ff_infs rg)))),
                               rg\<lparr>ff_infs := snd (summary_inferencer float
                                     (inferencers_after (inf_to_idxs rg)
                                        (map (\<lambda>k. out ((nxt ^^ k) g)) [0..<n])
                                        (before_all (ff_infs rg))))\<rparr>,
                               (nxt ^^ n) g)
                    \<and> count_list
                         (before_events (ff_infs rg)
                            @ concat (map (\<lambda>k. step_events (inf_to_idxs rg) (out ((nxt ^^ k) g)))
                                        [0..<n])
                            @ fst (summary_inferencer float
                                (inferencers_after (inf_to_idxs rg)
                                   (map (\<lambda>k. out ((nxt ^^ k) g)) [0..<n])
                                   (before_all (ff_infs rg))))
                          :: ('v, 'f) event list) SessRun = n"
    by (intro allI impI, rule steps, assumption+)
  show "\<exists>r. FeedfreeInferenceRunner_init (TensorInput inp)
                    (PyList (map Inferencer vs)
                       :: (('s, 'v, 'r) inferencer, 'd, 't tensor_input) pyobj) PyNone prefix
                   = Inr r
                \<and> ff_size r = n
                \<and> (\<forall>(tr :: ('v, 't, 'g) trainer) rg g out nxt.
                      FeedfreeInferenceRunner_setup_graph tr r = Inr rg \<longrightarrow>
                      (\<forall>g'. sess_run tr g' (ff_output_tensors rg) = Inr (out g', nxt g')
                            \<and> length (out g') = length (ff_output_tensors rg)) \<longrightarrow>
                      ff_size rg = n
                    \<and> FeedfreeInferenceRunner_trigger float tr rg g
                        = Inr (before_events (ff_infs rg)
                                 @ concat (map (\<lambda>k. step_events (inf_to_idxs rg) (out ((nxt ^^ k) g)))
                                             [0..<n])
                                 @ fst (summary_inferencer float
                                     (inferencers_after (inf_to_idxs rg)
                                        (map (\<lambda>k. out ((nxt ^^ k) g)) [0..<n])
                                        (before_all (ff_infs rg)))),
                               rg\<lparr>ff_infs := snd (summary_inferencer float
                                     (inferencers_after (inf_to_idxs rg)
                                        (map (\<lambda>k. out ((nxt ^^ k) g)) [0..<n])
                                        (before_all (ff_infs rg))))\<rparr>,
                               (nxt ^^ n) g)
                    \<and> count_list
                         (before_events (ff_infs rg)
                            @ concat (map (\<lambda>k. step_events (inf_to_idxs rg) (out ((nxt ^^ k) g)))
                                        [0..<n])
                            @ fst (summary_inferencer float
                                (inferencers_after (inf_to_idxs rg)
                                   (map (\<lambda>k. out ((nxt ^^ k) g)) [0..<n])
                                   (before_all (ff_infs rg))))
                          :: ('v, 'f) event list) SessRun = n)"
    by (intro exI [of _ ?r] conjI, rule built, simp, rule all_steps)
qed

theorem feedfree_size_witness:
  "FeedfreeInferenceRunner_init
     (TensorInput \<lparr>input_size = Inl NotImplementedError, get_input_tensors = [7 :: nat]\<rparr>)
     (PyList [Inferencer (\<lparr>class_name = ''Count'', inf_state = [], get_output_tensors = [''out''],
        before_inference = (\<lambda>s. []), datapoint = (\<lambda>s a. s @ [a]),
        after_inference = (\<lambda>s. ([(''count'', length s)], s))\<rparr>
       :: (nat list list, nat, nat) inferencer)]
        :: ((nat list list, nat, nat) inferencer, unit, nat tensor_input) pyobj)
     PyNone ''p'' = Inl ValueError
   \<and> (\<exists>r rg.
         FeedfreeInferenceRunner_init
           (TensorInput \<lparr>input_size = Inr 2, get_input_tensors = [7 :: nat]\<rparr>)
           (PyList [Inferencer (\<lparr>class_name = ''Count'', inf_state = [], get_output_tensors = [''out''],
        before_inference = (\<lambda>s. []), datapoint = (\<lambda>s a. s @ [a]),
        after_inference = (\<lambda>s. ([(''count'', length s)], s))\<rparr>
       :: (nat list list, nat, nat) inferencer)]
              :: ((nat list list, nat, nat) inferencer, unit, nat tensor_input) pyobj)
           PyNone ''p'' = Inr r
       \<and> ff_size r = 2
       \<and> FeedfreeInferenceRunner_setup_graph (\<lparr>get_reused_placehdrs = [Tensor ''input:0''],
        get_predictor = (\<lambda>ins outs dp. Inr dp),
        build_tower = (\<lambda>ts p. [''ptower/out:0'' \<mapsto> 5]),
        get_predict_tower_name = (\<lambda>k p. p @ ''tower''),
        sess_run = (\<lambda>g ts. Inr (map (\<lambda>t. t + g) ts, Suc g))\<rparr>
       :: (nat, nat, nat) trainer) r = Inr rg
       \<and> FeedfreeInferenceRunner_trigger (Inr :: nat \<Rightarrow> py_error + nat) (\<lparr>get_reused_placehdrs = [Tensor ''input:0''],
        get_predictor = (\<lambda>ins outs dp. Inr dp),
        build_tower = (\<lambda>ts p. [''ptower/out:0'' \<mapsto> 5]),
        get_predict_tower_name = (\<lambda>k p. p @ ''tower''),
        sess_run = (\<lambda>g ts. Inr (map (\<lambda>t. t + g) ts, Suc g))\<rparr>
       :: (nat, nat, nat) trainer) rg 0
            = Inr ([BeforeInference 0, SessRun, Datapoint 0 [5], SessRun, Datapoint 0 [6],
                    AfterInference 0, AddScalarSummary ''count'' 2],
                   rg\<lparr>ff_infs := [(hd (ff_infs rg))\<lparr>inf_state := [[5], [6]]\<rparr>]\<rparr>, 2))"
proof -
  let ?inf = "(\<lparr>class_name = ''Count'', inf_state = [], get_output_tensors = [''out''],
        before_inference = (\<lambda>s. []), datapoint = (\<lambda>s a. s @ [a]),
        after_inference = (\<lambda>s. ([(''count'', length s)], s))\<rparr>
       :: (nat list list, nat, nat) inferencer)"
  let ?tr = "(\<lparr>get_reused_placehdrs = [Tensor ''input:0''],
        get_predictor = (\<lambda>ins outs dp. Inr dp),
        build_tower = (\<lambda>ts p. [''ptower/out:0'' \<mapsto> 5]),
        get_predict_tower_name = (\<lambda>k p. p @ ''tower''),
        sess_run = (\<lambda>g ts. Inr (map (\<lambda>t. t + g) ts, Suc g))\<rparr>
       :: (nat, nat, nat) trainer)"
  let ?none = "\<lparr>input_size = Inl NotImplementedError, get_input_tensors = [7 :: nat]\<rparr>"
  let ?two = "\<lparr>input_size = Inr 2, get_input_tensors = [7 :: nat]\<rparr>"
  let ?rg = "\<lparr>ff_input_data = ?two, ff_infs = [?inf], ff_input_names = None, ff_size = 2,
              ff_prefix = ''p'', ff_input_tensors = [7], ff_tower_prefix = ''ptower'',
              ff_output_tensors = [5], inf_to_idxs = [[0]]\<rparr>"
  note thm1 = feedfree_size [where inp = ?none and vs = "[?inf]" and prefix = "''p''"
      and ?'d = unit, THEN conjunct1]
  have no_size: "FeedfreeInferenceRunner_init (TensorInput ?none)
     (PyList [Inferencer ?inf]
        :: ((nat list list, nat, nat) inferencer, unit, nat tensor_input) pyobj)
     PyNone ''p'' = Inl ValueError"
    using thm1 by simp
  from feedfree_size [where inp = ?two and vs = "[?inf]" and prefix = "''p''" and n = 2
      and float = "Inr :: nat \<Rightarrow> py_error + nat" and ?'d = unit and ?'g = nat, THEN conjunct2]
  obtain r where built: "FeedfreeInferenceRunner_init (TensorInput ?two)
           (PyList [Inferencer ?inf]
              :: ((nat list list, nat, nat) inferencer, unit, nat tensor_input) pyobj)
           PyNone ''p'' = Inr r"
    and size: "ff_size r = 2"
    and steps: "\<And>rg g out nxt. FeedfreeInferenceRunner_setup_graph ?tr r = Inr rg \<Longrightarrow>
           (\<forall>g'. sess_run ?tr g' (ff_output_tensors rg) = Inr (out g', nxt g')
                 \<and> length (out g') = length (ff_output_tensors rg)) \<Longrightarrow>
           FeedfreeInferenceRunner_trigger (Inr :: nat \<Rightarrow> py_error + nat) ?tr rg g
             = Inr (before_events (ff_infs rg)
                      @ concat (map (\<lambda>k. step_events (inf_to_idxs rg) (out ((nxt ^^ k) g)))
                                  [0..<2])
                      @ fst (summary_inferencer Inr
                          (inferencers_after (inf_to_idxs rg)
                             (map (\<lambda>k. out ((nxt ^^ k) g)) [0..<2])
                             (before_all (ff_infs rg)))),
                    rg\<lparr>ff_infs := snd (summary_inferencer Inr
                          (inferencers_after (inf_to_idxs rg)
                             (map (\<lambda>k. out ((nxt ^^ k) g)) [0..<2])
                             (before_all (ff_infs rg))))\<rparr>,
                    (nxt ^^ 2) g)"
    by auto
  from built have r: "r = \<lparr>ff_input_data = ?two, ff_infs = [?inf], ff_input_names = None,
                           ff_size = 2, ff_prefix = ''p''\<rparr>"
    by (simp add: FeedfreeInferenceRunner_init_def)
  have graph: "FeedfreeInferenceRunner_setup_graph ?tr r = Inr ?rg"
    by (simp add: r FeedfreeInferenceRunner_setup_graph_def
        FeedfreeInferenceRunner_find_input_tensors_def
        FeedfreeInferenceRunner_find_output_tensors_def Let_def get_all_names_def
        get_idx_for_each_entry_def add_entries_def add_entry_def OutputTensorDispatcher_def
        get_op_tensor_name_def)
  have run: "\<forall>g'. sess_run ?tr g' (ff_output_tensors ?rg) = Inr ([5 + g'], Suc g')
                 \<and> length [5 + g'] = length (ff_output_tensors ?rg)"
    by simp
  have upt2: "[0..<2] = [0, Suc 0]"
    by (simp add: upt_rec)
  have "FeedfreeInferenceRunner_trigger (Inr :: nat \<Rightarrow> py_error + nat) ?tr ?rg 0
       = Inr ([BeforeInference 0, SessRun, Datapoint 0 [5], SessRun, Datapoint 0 [6],
               AfterInference 0, AddScalarSummary ''count'' 2],
              ?rg\<lparr>ff_infs := [(hd (ff_infs ?rg))\<lparr>inf_state := [[5], [6]]\<rparr>]\<rparr>, 2)"
    unfolding steps [OF graph run, of 0] upt2
    by (simp add: before_events_def before_all_def step_events_def summary_inferencer_def
        numeral_2_eq_2)
  with no_size built size graph show ?thesis by blast
qed

section \<open>Requested names in the feedfree runner\<close>

lemma traverse_lookup:
  "traverse (\<lambda>n. case G (f n) of None \<Rightarrow> Inl KeyError | Some t \<Rightarrow> Inr t) xs
     = (if \<forall>n \<in> set xs. G (f n) \<noteq> None then Inr (map (\<lambda>n. the (G (f n))) xs)
        else Inl KeyError)"
  by (induction xs) (auto split: option.splits)

text \<open>
  C5, as the code has it. The feedfree runner does not classify a requested name as an
  input and rejects none for being one. \<^verbatim>\<open>_find_output_tensors\<close> takes no input
  names: it looks every requested name, in its canonical form, up in the graph under the
  tower prefix, raises the \<^verbatim>\<open>KeyError\<close> of that lookup exactly when the graph has no
  tensor of such a name for some requested name, and otherwise returns the tensors it has
  found, one per distinct name, with the index lists of the dispatcher.
  \<^verbatim>\<open>_setup_graph\<close> raises \<^verbatim>\<open>NotImplementedError\<close> when input names were given to
  the constructor and the assertion error when the input tensors and the placeholders of
  the model differ in number; otherwise it raises or returns as
  \<^verbatim>\<open>_find_output_tensors\<close> does on the graph with the tower, and keeps the tensors
  and index lists that it returns. Of the placeholders of the model only their number
  matters: with other placeholders, of the same number, the result is the same.
\<close>

theorem feedfree_no_residency_check:
  assumes "G = build_tower tr (get_input_tensors (ff_input_data r)) (ff_prefix r)"
      and "tp = get_predict_tower_name tr 0 (ff_prefix r)"
      and "es = map get_output_tensors (ff_infs r)"
  shows "FeedfreeInferenceRunner_find_output_tensors tower_prefix G' es'
     = (if \<forall>n \<in> set (canonical (concat es')). G' (tower_prefix @ ''/'' @ n) \<noteq> None
        then Inr (map (\<lambda>n. the (G' (tower_prefix @ ''/'' @ n))) (get_all_names (add_entries es')),
                  get_idx_for_each_entry (add_entries es'))
        else Inl KeyError)
   \<and> FeedfreeInferenceRunner_setup_graph tr r
     = (if ff_input_names r \<noteq> None then Inl NotImplementedError
        else if length (get_input_tensors (ff_input_data r)) \<noteq> length (get_reused_placehdrs tr)
        then Inl AssertionError
        else if \<forall>n \<in> set (canonical (concat es)). G (tp @ ''/'' @ n) \<noteq> None
        then Inr \<lparr>ff_input_data = ff_input_data r, ff_infs = ff_infs r,
                  ff_input_names = ff_input_names r, ff_size = ff_size r,
                  ff_prefix = ff_prefix r,
                  ff_input_tensors = get_input_tensors (ff_input_data r),
                  ff_tower_prefix = tp,
                  ff_output_tensors
                    = map (\<lambda>n. the (G (tp @ ''/'' @ n))) (get_all_names (add_entries es)),
                  inf_to_idxs = get_idx_for_each_entry (add_entries es)\<rparr>
        else Inl KeyError)
   \<and> (length ph = length (get_reused_placehdrs tr) \<longrightarrow>
        FeedfreeInferenceRunner_setup_graph (tr\<lparr>get_reused_placehdrs := ph\<rparr>) r
          = FeedfreeInferenceRunner_setup_graph tr r)"
proof -
  have lookup: "FeedfreeInferenceRunner_find_output_tensors p H xs
     = (if \<forall>n \<in> set (canonical (concat xs)). H (p @ ''/'' @ n) \<noteq> None
        then Inr (map (\<lambda>n. the (H (p @ ''/'' @ n))) (get_all_names (add_entries xs)),
                  get_idx_for_each_entry (add_entries xs))
        else Inl KeyError)" for p and H :: "string \<Rightarrow> 'x option" and xs
  proof -
    have seteq: "set (names (add_entries xs)) = set (canonical (concat xs))"
      by (simp add: names_add_entries set_first_seen)
    have t: "traverse (\<lambda>n. case H (p @ ''/'' @ n) of
                              None \<Rightarrow> Inl KeyError | Some t \<Rightarrow> Inr t) (names (add_entries xs))
        = (if \<forall>n \<in> set (names (add_entries xs)). H (p @ ''/'' @ n) \<noteq> None
           then Inr (map (\<lambda>n. the (H (p @ ''/'' @ n))) (names (add_entries xs)))
           else Inl KeyError)"
      by (rule traverse_lookup [where f = "\<lambda>n. p @ ''/'' @ n"])
    show ?thesis
      unfolding FeedfreeInferenceRunner_find_output_tensors_def Let_def get_all_names_def t seteq
      by simp
  qed
  have whole: "FeedfreeInferenceRunner_setup_graph tr r
     = (if ff_input_names r \<noteq> None then Inl NotImplementedError
        else if length (get_input_tensors (ff_input_data r)) \<noteq> length (get_reused_placehdrs tr)
        then Inl AssertionError
        else if \<forall>n \<in> set (canonical (concat es)). G (tp @ ''/'' @ n) \<noteq> None
        then Inr \<lparr>ff_input_data = ff_input_data r, ff_infs = ff_infs r,
                  ff_input_names = ff_input_names r, ff_size = ff_size r,
                  ff_prefix = ff_prefix r,
                  ff_input_tensors = get_input_tensors (ff_input_data r),
                  ff_tower_prefix = tp,
                  ff_output_tensors
                    = map (\<lambda>n. the (G (tp @ ''/'' @ n))) (get_all_names (add_entries es)),
                  inf_to_idxs = get_idx_for_each_entry (add_entries es)\<rparr>
        else Inl KeyError)"
    unfolding FeedfreeInferenceRunner_setup_graph_def
      FeedfreeInferenceRunner_find_input_tensors_def Let_def lookup assms
    by auto
  have "FeedfreeInferenceRunner_setup_graph (tr\<lparr>get_reused_placehdrs := ph\<rparr>) r
          = FeedfreeInferenceRunner_setup_graph tr r"
    if "length ph = length (get_reused_placehdrs tr)"
    using that
    unfolding FeedfreeInferenceRunner_setup_graph_def
      FeedfreeInferenceRunner_find_input_tensors_def Let_def
    by (simp cong: sum.case_cong prod.case_cong)
  with lookup [of tower_prefix G' es'] whole show ?thesis by blast
qed

theorem feedfree_no_residency_check_witness:
  "FeedfreeInferenceRunner_setup_graph (\<lparr>get_reused_placehdrs = [Tensor ''input:0''],
        get_predictor = (\<lambda>ins outs dp. Inr dp),
        build_tower = (\<lambda>ts p. [''input:0'' \<mapsto> 7, ''ptower/input:0'' \<mapsto> 5, ''ptower/out:0'' \<mapsto> 6]),
        get_predict_tower_name = (\<lambda>k p. p @ ''tower''),
        sess_run = (\<lambda>g ts. Inr (map (\<lambda>t. t + g) ts, Suc g))\<rparr>
       :: (nat, nat, nat) trainer) (\<lparr>ff_input_data = \<lparr>input_size = Inr 2, get_input_tensors = [7]\<rparr>,
        ff_infs = [\<lparr>class_name = ''Count'', inf_state = [], get_output_tensors = [''input''],
          before_inference = (\<lambda>s. []), datapoint = (\<lambda>s a. s @ [a]),
          after_inference = (\<lambda>s. ([(''count'', length s)], s))\<rparr>], ff_input_names = None, ff_size = 2, ff_prefix = ''p''\<rparr>
       :: (nat list list, nat, nat, nat) FeedfreeInferenceRunner)
     = Inr \<lparr>ff_input_data = \<lparr>input_size = Inr 2, get_input_tensors = [7]\<rparr>,
            ff_infs = [\<lparr>class_name = ''Count'', inf_state = [], get_output_tensors = [''input''],
          before_inference = (\<lambda>s. []), datapoint = (\<lambda>s a. s @ [a]),
          after_inference = (\<lambda>s. ([(''count'', length s)], s))\<rparr>], ff_input_names = None, ff_size = 2, ff_prefix = ''p'',
            ff_input_tensors = [7], ff_tower_prefix = ''ptower'', ff_output_tensors = [5],
            inf_to_idxs = [[0]]\<rparr>
   \<and> FeedfreeInferenceRunner_setup_graph (\<lparr>get_reused_placehdrs = [Tensor ''input:0''],
        get_predictor = (\<lambda>ins outs dp. Inr dp),
        build_tower = (\<lambda>ts p. [''input:0'' \<mapsto> 7, ''ptower/out:0'' \<mapsto> 6]),
        get_predict_tower_name = (\<lambda>k p. p @ ''tower''),
        sess_run = (\<lambda>g ts. Inr (map (\<lambda>t. t + g) ts, Suc g))\<rparr>
       :: (nat, nat, nat) trainer) (\<lparr>ff_input_data = \<lparr>input_size = Inr 2, get_input_tensors = [7]\<rparr>,
        ff_infs = [\<lparr>class_name = ''Count'', inf_state = [], get_output_tensors = [''input''],
          before_inference = (\<lambda>s. []), datapoint = (\<lambda>s a. s @ [a]),
          after_inference = (\<lambda>s. ([(''count'', length s)], s))\<rparr>], ff_input_names = None, ff_size = 2, ff_prefix = ''p''\<rparr>
       :: (nat list list, nat, nat, nat) FeedfreeInferenceRunner) = Inl KeyError
   \<and> FeedfreeInferenceRunner_setup_graph
       ((\<lparr>get_reused_placehdrs = [Tensor ''input:0''],
        get_predictor = (\<lambda>ins outs dp. Inr dp),
        build_tower = (\<lambda>ts p. [''input:0'' \<mapsto> 7, ''ptower/out:0'' \<mapsto> 6]),
        get_predict_tower_name = (\<lambda>k p. p @ ''tower''),
        sess_run = (\<lambda>g ts. Inr (map (\<lambda>t. t + g) ts, Suc g))\<rparr>
       :: (nat, nat, nat) trainer)\<lparr>get_reused_placehdrs := [Tensor ''image:0'']\<rparr>) (\<lparr>ff_input_data = \<lparr>input_size = Inr 2, get_input_tensors = [7]\<rparr>,
        ff_infs = [\<lparr>class_name = ''Count'', inf_state = [], get_output_tensors = [''input''],
          before_inference = (\<lambda>s. []), datapoint = (\<lambda>s a. s @ [a]),
          after_inference = (\<lambda>s. ([(''count'', length s)], s))\<rparr>], ff_input_names = None, ff_size = 2, ff_prefix = ''p''\<rparr>
       :: (nat list list, nat, nat, nat) FeedfreeInferenceRunner)
     = FeedfreeInferenceRunner_setup_graph (\<lparr>get_reused_placehdrs = [Tensor ''input:0''],
        get_predictor = (\<lambda>ins outs dp. Inr dp),
        build_tower = (\<lambda>ts p. [''input:0'' \<mapsto> 7, ''ptower/out:0'' \<mapsto> 6]),
        get_predict_tower_name = (\<lambda>k p. p @ ''tower''),
        sess_run = (\<lambda>g ts. Inr (map (\<lambda>t. t + g) ts, Suc g))\<rparr>
       :: (nat, nat, nat) trainer) (\<lparr>ff_input_data = \<lparr>input_size = Inr 2, get_input_tensors = [7]\<rparr>,
        ff_infs = [\<lparr>class_name = ''Count'', inf_state = [], get_output_tensors = [''input''],
          before_inference = (\<lambda>s. []), datapoint = (\<lambda>s a. s @ [a]),
          after_inference = (\<lambda>s. ([(''count'', length s)], s))\<rparr>], ff_input_names = None, ff_size = 2, ff_prefix = ''p''\<rparr>
       :: (nat list list, nat, nat, nat) FeedfreeInferenceRunner)"
proof -
  note a = feedfree_no_residency_check [OF refl refl refl, where tr = "(\<lparr>get_reused_placehdrs = [Tensor ''input:0''],
        get_predictor = (\<lambda>ins outs dp. Inr dp),
        build_tower = (\<lambda>ts p. [''input:0'' \<mapsto> 7, ''ptower/input:0'' \<mapsto> 5, ''ptower/out:0'' \<mapsto> 6]),
        get_predict_tower_name = (\<lambda>k p. p @ ''tower''),
        sess_run = (\<lambda>g ts. Inr (map (\<lambda>t. t + g) ts, Suc g))\<rparr>
       :: (nat, nat, nat) trainer)" and r = "(\<lparr>ff_input_data = \<lparr>input_size = Inr 2, get_input_tensors = [7]\<rparr>,
        ff_infs = [\<lparr>class_name = ''Count'', inf_state = [], get_output_tensors = [''input''],
          before_inference = (\<lambda>s. []), datapoint = (\<lambda>s a. s @ [a]),
          after_inference = (\<lambda>s. ([(''count'', length s)], s))\<rparr>], ff_input_names = None, ff_size = 2, ff_prefix = ''p''\<rparr>
       :: (nat list list, nat, nat, nat) FeedfreeInferenceRunner)",
      THEN conjunct2, THEN conjunct1]
  note b = feedfree_no_residency_check [OF refl refl refl, where tr = "(\<lparr>get_reused_placehdrs = [Tensor ''input:0''],
        get_predictor = (\<lambda>ins outs dp. Inr dp),
        build_tower = (\<lambda>ts p. [''input:0'' \<mapsto> 7, ''ptower/out:0'' \<mapsto> 6]),
        get_predict_tower_name = (\<lambda>k p. p @ ''tower''),
        sess_run = (\<lambda>g ts. Inr (map (\<lambda>t. t + g) ts, Suc g))\<rparr>
       :: (nat, nat, nat) trainer)" and r = "(\<lparr>ff_input_data = \<lparr>input_size = Inr 2, get_input_tensors = [7]\<rparr>,
        ff_infs = [\<lparr>class_name = ''Count'', inf_state = [], get_output_tensors = [''input''],
          before_inference = (\<lambda>s. []), datapoint = (\<lambda>s a. s @ [a]),
          after_inference = (\<lambda>s. ([(''count'', length s)], s))\<rparr>], ff_input_names = None, ff_size = 2, ff_prefix = ''p''\<rparr>
       :: (nat list list, nat, nat, nat) FeedfreeInferenceRunner)",
      THEN conjunct2, THEN conjunct1]
  note c = feedfree_no_residency_check [OF refl refl refl, where tr = "(\<lparr>get_reused_placehdrs = [Tensor ''input:0''],
        get_predictor = (\<lambda>ins outs dp. Inr dp),
        build_tower = (\<lambda>ts p. [''input:0'' \<mapsto> 7, ''ptower/out:0'' \<mapsto> 6]),
        get_predict_tower_name = (\<lambda>k p. p @ ''tower''),
        sess_run = (\<lambda>g ts. Inr (map (\<lambda>t. t + g) ts, Suc g))\<rparr>
       :: (nat, nat, nat) trainer)" and r = "(\<lparr>ff_input_data = \<lparr>input_size = Inr 2, get_input_tensors = [7]\<rparr>,
        ff_infs = [\<lparr>class_name = ''Count'', inf_state = [], get_output_tensors = [''input''],
          before_inference = (\<lambda>s. []), datapoint = (\<lambda>s a. s @ [a]),
          after_inference = (\<lambda>s. ([(''count'', length s)], s))\<rparr>], ff_input_names = None, ff_size = 2, ff_prefix = ''p''\<rparr>
       :: (nat list list, nat, nat, nat) FeedfreeInferenceRunner)"
      and ph = "[Tensor ''image:0'']", THEN conjunct2, THEN conjunct2]
  have 1: "FeedfreeInferenceRunner_setup_graph (\<lparr>get_reused_placehdrs = [Tensor ''input:0''],
        get_predictor = (\<lambda>ins outs dp. Inr dp),
        build_tower = (\<lambda>ts p. [''input:0'' \<mapsto> 7, ''ptower/input:0'' \<mapsto> 5, ''ptower/out:0'' \<mapsto> 6]),
        get_predict_tower_name = (\<lambda>k p. p @ ''tower''),
        sess_run = (\<lambda>g ts. Inr (map (\<lambda>t. t + g) ts, Suc g))\<rparr>
       :: (nat, nat, nat) trainer) (\<lparr>ff_input_data = \<lparr>input_size = Inr 2, get_input_tensors = [7]\<rparr>,
        ff_infs = [\<lparr>class_name = ''Count'', inf_state = [], get_output_tensors = [''input''],
          before_inference = (\<lambda>s. []), datapoint = (\<lambda>s a. s @ [a]),
          after_inference = (\<lambda>s. ([(''count'', length s)], s))\<rparr>], ff_input_names = None, ff_size = 2, ff_prefix = ''p''\<rparr>
       :: (nat list list, nat, nat, nat) FeedfreeInferenceRunner)
     = Inr \<lparr>ff_input_data = \<lparr>input_size = Inr 2, get_input_tensors = [7]\<rparr>,
            ff_infs = [\<lparr>class_name = ''Count'', inf_state = [], get_output_tensors = [''input''],
          before_inference = (\<lambda>s. []), datapoint = (\<lambda>s a. s @ [a]),
          after_inference = (\<lambda>s. ([(''count'', length s)], s))\<rparr>], ff_input_names = None, ff_size = 2, ff_prefix = ''p'',
            ff_input_tensors = [7], ff_tower_prefix = ''ptower'', ff_output_tensors = [5],
            inf_to_idxs = [[0]]\<rparr>"
    unfolding a
    by (simp add: canonical_def get_op_tensor_name_def get_all_names_def
        get_idx_for_each_entry_def add_entries_def add_entry_def OutputTensorDispatcher_def)
  have 2: "FeedfreeInferenceRunner_setup_graph (\<lparr>get_reused_placehdrs = [Tensor ''input:0''],
        get_predictor = (\<lambda>ins outs dp. Inr dp),
        build_tower = (\<lambda>ts p. [''input:0'' \<mapsto> 7, ''ptower/out:0'' \<mapsto> 6]),
        get_predict_tower_name = (\<lambda>k p. p @ ''tower''),
        sess_run = (\<lambda>g ts. Inr (map (\<lambda>t. t + g) ts, Suc g))\<rparr>
       :: (nat, nat, nat) trainer) (\<lparr>ff_input_data = \<lparr>input_size = Inr 2, get_input_tensors = [7]\<rparr>,
        ff_infs = [\<lparr>class_name = ''Count'', inf_state = [], get_output_tensors = [''input''],
          before_inference = (\<lambda>s. []), datapoint = (\<lambda>s a. s @ [a]),
          after_inference = (\<lambda>s. ([(''count'', length s)], s))\<rparr>], ff_input_names = None, ff_size = 2, ff_prefix = ''p''\<rparr>
       :: (nat list list, nat, nat, nat) FeedfreeInferenceRunner) = Inl KeyError"
    unfolding b
    by (simp add: canonical_def get_op_tensor_name_def)
  have 3: "FeedfreeInferenceRunner_setup_graph
       ((\<lparr>get_reused_placehdrs = [Tensor ''input:0''],
        get_predictor = (\<lambda>ins outs dp. Inr dp),
        build_tower = (\<lambda>ts p. [''input:0'' \<mapsto> 7, ''ptower/out:0'' \<mapsto> 6]),
        get_predict_tower_name = (\<lambda>k p. p @ ''tower''),
        sess_run = (\<lambda>g ts. Inr (map (\<lambda>t. t + g) ts, Suc g))\<rparr>
       :: (nat, nat, nat) trainer)\<lparr>get_reused_placehdrs := [Tensor ''image:0'']\<rparr>) (\<lparr>ff_input_data = \<lparr>input_size = Inr 2, get_input_tensors = [7]\<rparr>,
        ff_infs = [\<lparr>class_name = ''Count'', inf_state = [], get_output_tensors = [''input''],
          before_inference = (\<lambda>s. []), datapoint = (\<lambda>s a. s @ [a]),
          after_inference = (\<lambda>s. ([(''count'', length s)], s))\<rparr>], ff_input_names = None, ff_size = 2, ff_prefix = ''p''\<rparr>
       :: (nat list list, nat, nat, nat) FeedfreeInferenceRunner)
     = FeedfreeInferenceRunner_setup_graph (\<lparr>get_reused_placehdrs = [Tensor ''input:0''],
        get_predictor = (\<lambda>ins outs dp. Inr dp),
        build_tower = (\<lambda>ts p. [''input:0'' \<mapsto> 7, ''ptower/out:0'' \<mapsto> 6]),
        get_predict_tower_name = (\<lambda>k p. p @ ''tower''),
        sess_run = (\<lambda>g ts. Inr (map (\<lambda>t. t + g) ts, Suc g))\<rparr>
       :: (nat, nat, nat) trainer) (\<lparr>ff_input_data = \<lparr>input_size = Inr 2, get_input_tensors = [7]\<rparr>,
        ff_infs = [\<lparr>class_name = ''Count'', inf_state = [], get_output_tensors = [''input''],
          before_inference = (\<lambda>s. []), datapoint = (\<lambda>s a. s @ [a]),
          after_inference = (\<lambda>s. ([(''count'', length s)], s))\<rparr>], ff_input_names = None, ff_size = 2, ff_prefix = ''p''\<rparr>
       :: (nat list list, nat, nat, nat) FeedfreeInferenceRunner)"
    using c by simp
  from 1 2 3 show ?thesis by blast
qed

text \<open>
  C5, as the claim states it, fails. The model declares the input \<^verbatim>\<open>input:0\<close> and an
  inferencer requests \<^verbatim>\<open>input\<close>. When the tower holds a tensor under that name, as
  it does when the model computes one there, the constructor and \<^verbatim>\<open>_setup_graph\<close>
  return, and the runner will fetch the tensor of the tower for the inferencer: nothing
  rejects the request. When the tower holds none, \<^verbatim>\<open>_setup_graph\<close> raises the
  \<^verbatim>\<open>KeyError\<close> of the graph lookup, which is what the request of a name that nobody
  has declared raises as well.
\<close>

theorem feedfree_input_name_not_rejected:
  "snd (get_op_tensor_name ''input'') \<in> set (map get_name (get_reused_placehdrs (\<lparr>get_reused_placehdrs = [Tensor ''input:0''],
        get_predictor = (\<lambda>ins outs dp. Inr dp),
        build_tower = (\<lambda>ts p. [''input:0'' \<mapsto> 7, ''ptower/input:0'' \<mapsto> 5, ''ptower/out:0'' \<mapsto> 6]),
        get_predict_tower_name = (\<lambda>k p. p @ ''tower''),
        sess_run = (\<lambda>g ts. Inr (map (\<lambda>t. t + g) ts, Suc g))\<rparr>
       :: (nat, nat, nat) trainer)))
   \<and> FeedfreeInferenceRunner_init
       (TensorInput \<lparr>input_size = Inr 2, get_input_tensors = [7 :: nat]\<rparr>)
       (PyList [Inferencer \<lparr>class_name = ''Count'', inf_state = [], get_output_tensors = [''input''],
          before_inference = (\<lambda>s. []), datapoint = (\<lambda>s a. s @ [a]),
          after_inference = (\<lambda>s. ([(''count'', length s)], s))\<rparr>]
          :: ((nat list list, nat, nat) inferencer, unit, nat tensor_input) pyobj)
       PyNone ''p''
     = Inr (\<lparr>ff_input_data = \<lparr>input_size = Inr 2, get_input_tensors = [7]\<rparr>,
        ff_infs = [\<lparr>class_name = ''Count'', inf_state = [], get_output_tensors = [''input''],
          before_inference = (\<lambda>s. []), datapoint = (\<lambda>s a. s @ [a]),
          after_inference = (\<lambda>s. ([(''count'', length s)], s))\<rparr>], ff_input_names = None, ff_size = 2, ff_prefix = ''p''\<rparr>
       :: (nat list list, nat, nat, nat) FeedfreeInferenceRunner)
   \<and> FeedfreeInferenceRunner_setup_graph (\<lparr>get_reused_placehdrs = [Tensor ''input:0''],
        get_predictor = (\<lambda>ins outs dp. Inr dp),
        build_tower = (\<lambda>ts p. [''input:0'' \<mapsto> 7, ''ptower/input:0'' \<mapsto> 5, ''ptower/out:0'' \<mapsto> 6]),
        get_predict_tower_name = (\<lambda>k p. p @ ''tower''),
        sess_run = (\<lambda>g ts. Inr (map (\<lambda>t. t + g) ts, Suc g))\<rparr>
       :: (nat, nat, nat) trainer) (\<lparr>ff_input_data = \<lparr>input_size = Inr 2, get_input_tensors = [7]\<rparr>,
        ff_infs = [\<lparr>class_name = ''Count'', inf_state = [], get_output_tensors = [''input''],
          before_inference = (\<lambda>s. []), datapoint = (\<lambda>s a. s @ [a]),
          after_inference = (\<lambda>s. ([(''count'', length s)], s))\<rparr>], ff_input_names = None, ff_size = 2, ff_prefix = ''p''\<rparr>
       :: (nat list list, nat, nat, nat) FeedfreeInferenceRunner)
     = Inr \<lparr>ff_input_data = \<lparr>input_size = Inr 2, get_input_tensors = [7]\<rparr>,
            ff_infs = [\<lparr>class_name = ''Count'', inf_state = [], get_output_tensors = [''input''],
          before_inference = (\<lambda>s. []), datapoint = (\<lambda>s a. s @ [a]),
          after_inference = (\<lambda>s. ([(''count'', length s)], s))\<rparr>], ff_input_names = None, ff_size = 2, ff_prefix = ''p'',
            ff_input_tensors = [7], ff_tower_prefix = ''ptower'', ff_output_tensors = [5],
            inf_to_idxs = [[0]]\<rparr>
   \<and> FeedfreeInferenceRunner_setup_graph (\<lparr>get_reused_placehdrs = [Tensor ''input:0''],
        get_predictor = (\<lambda>ins outs dp. Inr dp),
        build_tower = (\<lambda>ts p. [''input:0'' \<mapsto> 7, ''ptower/out:0'' \<mapsto> 6]),
        get_predict_tower_name = (\<lambda>k p. p @ ''tower''),
        sess_run = (\<lambda>g ts. Inr (map (\<lambda>t. t + g) ts, Suc g))\<rparr>
       :: (nat, nat, nat) trainer) (\<lparr>ff_input_data = \<lparr>input_size = Inr 2, get_input_tensors = [7]\<rparr>,
        ff_infs = [\<lparr>class_name = ''Count'', inf_state = [], get_output_tensors = [''input''],
          before_inference = (\<lambda>s. []), datapoint = (\<lambda>s a. s @ [a]),
          after_inference = (\<lambda>s. ([(''count'', length s)], s))\<rparr>], ff_input_names = None, ff_size = 2, ff_prefix = ''p''\<rparr>
       :: (nat list list, nat, nat, nat) FeedfreeInferenceRunner) = Inl KeyError
   \<and> FeedfreeInferenceRunner_setup_graph (\<lparr>get_reused_placehdrs = [Tensor ''input:0''],
        get_predictor = (\<lambda>ins outs dp. Inr dp),
        build_tower = (\<lambda>ts p. [''input:0'' \<mapsto> 7, ''ptower/out:0'' \<mapsto> 6]),
        get_predict_tower_name = (\<lambda>k p. p @ ''tower''),
        sess_run = (\<lambda>g ts. Inr (map (\<lambda>t. t + g) ts, Suc g))\<rparr>
       :: (nat, nat, nat) trainer) (\<lparr>ff_input_data = \<lparr>input_size = Inr 2, get_input_tensors = [7]\<rparr>,
        ff_infs = [\<lparr>class_name = ''Count'', inf_state = [], get_output_tensors = [''nosuch''],
          before_inference = (\<lambda>s. []), datapoint = (\<lambda>s a. s @ [a]),
          after_inference = (\<lambda>s. ([(''count'', length s)], s))\<rparr>], ff_input_names = None, ff_size = 2, ff_prefix = ''p''\<rparr>
       :: (nat list list, nat, nat, nat) FeedfreeInferenceRunner) = Inl KeyError"
  by (simp add: FeedfreeInferenceRunner_init_def FeedfreeInferenceRunner_setup_graph_def
        FeedfreeInferenceRunner_find_input_tensors_def
        FeedfreeInferenceRunner_find_output_tensors_def Let_def get_all_names_def
        get_idx_for_each_entry_def add_entries_def add_entry_def OutputTensorDispatcher_def
        get_op_tensor_name_def)

end
